theory Spec2Isabelle
  imports Complex_Main "HOL-Library.AList" "HOL-Library.Sublist" "HOL-Library.Log_Nat"
begin

section \<open>Strings of the page\<close>

text \<open>
  The scripts read and write the \<open>value\<close> of form controls, which are strings, and test
  them with JavaScript's truthiness: a string is truthy exactly when it is not empty.
  \<open>Array.prototype.join\<close> and \<open>String.prototype.trim\<close> are the two string builtins the
  modelled functions call. A character of a page string is a code unit below 256.
\<close>

fun join :: "string \<Rightarrow> string list \<Rightarrow> string" where
  "join sep [] = []"
| "join sep [x] = x"
| "join sep (x # y # ys) = x @ sep @ join sep (y # ys)"

definition isWhiteSpace :: "char \<Rightarrow> bool" where
  \<comment> \<open>ECMAScript's WhiteSpace and LineTerminator among the code units below 256\<close>
  "isWhiteSpace c =
     (c \<in> set [CHR '' '', CHR 0x09, CHR 0x0A, CHR 0x0B, CHR 0x0C, CHR 0x0D, CHR 0xA0])"

definition trim :: "string \<Rightarrow> string" where
  "trim s = rev (dropWhile isWhiteSpace (rev (dropWhile isWhiteSpace s)))"

section \<open>File upload: required files (static/js/file-upload.js)\<close>

text \<open>
  A file input of the page, as \<open>validateRequiredFiles\<close> sees it: whether it carries the class
  \<open>file-input\<close> and the attribute \<open>required\<close> (the selector \<open>.file-input[required]\<close>),
  whether \<open>input.files[0]\<close> exists, the text of the label found through
  \<open>input.closest('.mb-3')?.querySelector('label')?.textContent\<close> (\<open>None\<close> when one of
  the optional chains gives \<open>undefined\<close>), and \<open>input.name\<close>.
\<close>

record file_input =
  fi_name :: string
  fi_class_file_input :: bool
  fi_required :: bool
  fi_has_file :: bool
  fi_label_text :: "string option"

definition input_label :: "file_input \<Rightarrow> string" where
  \<comment> \<open>\<open>labelText || input.name\<close>: an absent or empty label text falls back to the name\<close>
  "input_label i = (case fi_label_text i of
       None \<Rightarrow> fi_name i
     | Some t \<Rightarrow> (if t = [] then fi_name i else t))"

definition requiredInputs :: "file_input list \<Rightarrow> file_input list" where
  "requiredInputs page = filter (\<lambda>i. fi_class_file_input i \<and> fi_required i) page"

definition missingInputs :: "file_input list \<Rightarrow> file_input list" where
  "missingInputs page = filter (\<lambda>i. \<not> fi_has_file i) (requiredInputs page)"

definition required_files_message :: "string list \<Rightarrow> string" where
  "required_files_message missing =
     ''Please upload the following required files: '' @ join '', '' missing"

text \<open>
  \<open>showError\<close> replaces the text of the error banner; the model keeps the list of the
  messages shown so far, so that each call is visible. \<open>validateRequiredFiles\<close> takes the
  inputs of the page and that list and returns its boolean with the new list.
\<close>

definition showError :: "string \<Rightarrow> string list \<Rightarrow> string list" where
  "showError message shown = shown @ [message]"

definition validateRequiredFiles :: "file_input list \<Rightarrow> string list \<Rightarrow> bool \<times> string list" where
  "validateRequiredFiles page shown =
     (let missing = map input_label (missingInputs page)
      in if length missing > 0
         then (False, showError (required_files_message missing) shown)
         else (True, shown))"

section \<open>JavaScript numbers\<close>

text \<open>
  A Number is an IEEE-754 double: NaN, one of the two infinities, or a finite value, which
  is a rational number. The model keeps the exact rational of a finite value and rounds
  the result of every arithmetic operation, and of reading a decimal literal, to the
  nearest double with ties to even (\<open>fl\<close>). Zero carries no sign here: the sign of a zero
  shows only when something is divided by it, and the modelled functions divide by a sum
  that starts from \<open>+0\<close> or by a number already found positive.
\<close>

datatype jsnum = NaN | Finite rat | PInf | NInf

definition round_half_even :: "rat \<Rightarrow> int" where
  "round_half_even y =
     (let f = \<lfloor>y\<rfloor>; d = y - of_int f
      in if d < 1 / 2 then f
         else if 1 / 2 < d then f + 1
         else if even f then f else f + 1)"

definition ilog2 :: "rat \<Rightarrow> int" where
  \<comment> \<open>\<open>\<lfloor>log\<^sub>2 x\<rfloor>\<close> of a positive rational, from the bit lengths of numerator and denominator\<close>
  "ilog2 x = (case quotient_of x of (p, q) \<Rightarrow>
       (let e = bitlen p - bitlen q in if 2 powi e \<le> x then e else e - 1))"

definition fl :: "rat \<Rightarrow> jsnum" where
  \<comment> \<open>binary64: a significand of 53 bits \<open>n\<close> at an exponent from \<open>-1022\<close> to \<open>1023\<close>; a
      magnitude that rounds to \<open>2\<^sup>1\<^sup>0\<^sup>2\<^sup>4\<close> or more overflows to an infinity\<close>
  "fl x =
     (if x = 0 then Finite 0
      else let a = \<bar>x\<bar>;
               e = max (ilog2 a) (- 1022)
           in if 1023 < e then (if 0 < x then PInf else NInf)
              else let ulp = 2 powi (e - 52);
                       n = round_half_even (a / ulp)
                   in if e = 1023 \<and> n = 2 ^ 53 then (if 0 < x then PInf else NInf)
                      else Finite (if 0 < x then of_int n * ulp else - (of_int n * ulp)))"

fun jslt :: "jsnum \<Rightarrow> jsnum \<Rightarrow> bool" where
  "jslt (Finite a) (Finite b) = (a < b)"
| "jslt (Finite a) PInf = True"
| "jslt NInf (Finite b) = True"
| "jslt NInf PInf = True"
| "jslt _ _ = False"

definition jsgt :: "jsnum \<Rightarrow> jsnum \<Rightarrow> bool" where
  "jsgt a b = jslt b a"

fun truthy :: "jsnum \<Rightarrow> bool" where
  "truthy NaN = False"
| "truthy (Finite r) = (r \<noteq> 0)"
| "truthy PInf = True"
| "truthy NInf = True"

definition isNaN :: "jsnum \<Rightarrow> bool" where
  "isNaN x = (x = NaN)"

fun jsneg :: "jsnum \<Rightarrow> jsnum" where
  "jsneg NaN = NaN"
| "jsneg (Finite r) = Finite (- r)"
| "jsneg PInf = NInf"
| "jsneg NInf = PInf"

fun jsadd :: "jsnum \<Rightarrow> jsnum \<Rightarrow> jsnum" where
  "jsadd NaN _ = NaN"
| "jsadd _ NaN = NaN"
| "jsadd (Finite a) (Finite b) = fl (a + b)"
| "jsadd (Finite a) PInf = PInf"
| "jsadd (Finite a) NInf = NInf"
| "jsadd PInf NInf = NaN"
| "jsadd PInf _ = PInf"
| "jsadd NInf PInf = NaN"
| "jsadd NInf _ = NInf"

definition signed_inf :: "bool \<Rightarrow> jsnum" where
  "signed_inf positive = (if positive then PInf else NInf)"

fun jsmul :: "jsnum \<Rightarrow> jsnum \<Rightarrow> jsnum" where
  "jsmul NaN _ = NaN"
| "jsmul _ NaN = NaN"
| "jsmul (Finite a) (Finite b) = fl (a * b)"
| "jsmul (Finite a) PInf = (if a = 0 then NaN else signed_inf (0 < a))"
| "jsmul (Finite a) NInf = (if a = 0 then NaN else signed_inf (a < 0))"
| "jsmul PInf (Finite b) = (if b = 0 then NaN else signed_inf (0 < b))"
| "jsmul NInf (Finite b) = (if b = 0 then NaN else signed_inf (b < 0))"
| "jsmul PInf PInf = PInf"
| "jsmul PInf NInf = NInf"
| "jsmul NInf PInf = NInf"
| "jsmul NInf NInf = PInf"

fun jsdiv :: "jsnum \<Rightarrow> jsnum \<Rightarrow> jsnum" where
  "jsdiv NaN _ = NaN"
| "jsdiv _ NaN = NaN"
| "jsdiv (Finite a) (Finite b) =
     (if b = 0 then (if a = 0 then NaN else signed_inf (0 < a)) else fl (a / b))"
| "jsdiv (Finite a) PInf = Finite 0"
| "jsdiv (Finite a) NInf = Finite 0"
| "jsdiv PInf (Finite b) = signed_inf (0 \<le> b)"
| "jsdiv NInf (Finite b) = signed_inf (b < 0)"
| "jsdiv _ _ = NaN"

subsection \<open>parseFloat\<close>

text \<open>
  The builtin skips leading white space, reads the longest prefix that is a decimal
  literal (an optional sign, then \<open>Infinity\<close> or digits with an optional fraction and an
  optional exponent) and gives NaN when there is none.
\<close>

definition isDigit :: "char \<Rightarrow> bool" where
  "isDigit c = (let n = (of_char c :: int) in 48 \<le> n \<and> n \<le> 57)"

definition digits_value :: "string \<Rightarrow> int" where
  "digits_value ds = foldl (\<lambda>acc c. 10 * acc + ((of_char c :: int) - 48)) 0 ds"

definition exponent_digits :: "string \<Rightarrow> int" where
  "exponent_digits s = digits_value (takeWhile isDigit s)"

fun exponent_part :: "string \<Rightarrow> int" where
  "exponent_part [] = 0"
| "exponent_part (c # t) =
     (if c = CHR ''e'' \<or> c = CHR ''E''
      then (case t of
              [] \<Rightarrow> 0
            | d # u \<Rightarrow> if d = CHR ''+'' then exponent_digits u
                       else if d = CHR ''-'' then - exponent_digits u
                       else exponent_digits t)
      else 0)"

definition unsigned_decimal :: "string \<Rightarrow> rat option" where
  "unsigned_decimal s =
     (let ip = takeWhile isDigit s;
          r1 = dropWhile isDigit s;
          fp = (case r1 of [] \<Rightarrow> [] | c # t \<Rightarrow> if c = CHR ''.'' then takeWhile isDigit t else []);
          r2 = (case r1 of [] \<Rightarrow> [] | c # t \<Rightarrow> if c = CHR ''.'' then dropWhile isDigit t else r1)
      in if ip = [] \<and> fp = [] then None
         else Some ((of_int (digits_value ip) + of_int (digits_value fp) / 10 ^ length fp)
                    * 10 powi exponent_part r2))"

definition unsigned_literal :: "string \<Rightarrow> jsnum" where
  "unsigned_literal s =
     (if prefix ''Infinity'' s then PInf
      else case unsigned_decimal s of None \<Rightarrow> NaN | Some v \<Rightarrow> fl v)"

definition parseFloat :: "string \<Rightarrow> jsnum" where
  "parseFloat s =
     (case dropWhile isWhiteSpace s of
        [] \<Rightarrow> NaN
      | c # t \<Rightarrow> if c = CHR ''-'' then jsneg (unsigned_literal t)
                 else if c = CHR ''+'' then unsigned_literal t
                 else unsigned_literal (c # t))"

subsection \<open>Number.prototype.toFixed\<close>

text \<open>
  \<open>x.toFixed(f)\<close> writes the integer nearest to \<open>x \<sqdot> 10\<^sup>f\<close> (the larger of two equally near
  ones) with a decimal point before its last \<open>f\<close> digits. A value that is not finite, or
  of magnitude \<open>10\<^sup>2\<^sup>1\<close> and more, is written as \<open>Number::toString\<close> writes it; that builtin is
  the parameter \<open>tostr\<close> of the functions that format numbers.
\<close>

function digits_of_int :: "int \<Rightarrow> string" where
  "digits_of_int n =
     (if n < 10 then [char_of (48 + n)]
      else digits_of_int (n div 10) @ [char_of (48 + n mod 10)])"
  by pat_completeness auto
termination
  by (relation "measure nat") auto

declare digits_of_int.simps [simp del]

definition nearest_scaled :: "nat \<Rightarrow> rat \<Rightarrow> int" where
  "nearest_scaled f a = \<lfloor>a * 10 ^ f + 1 / 2\<rfloor>"

definition fixed_digits :: "nat \<Rightarrow> int \<Rightarrow> string" where
  "fixed_digits f n =
     (let m = digits_of_int n
      in if f = 0 then m
         else let m' = replicate (f + 1 - length m) (CHR ''0'') @ m;
                  k = length m'
              in take (k - f) m' @ ''.'' @ drop (k - f) m')"

definition toFixed :: "(jsnum \<Rightarrow> string) \<Rightarrow> nat \<Rightarrow> jsnum \<Rightarrow> string" where
  "toFixed tostr f x =
     (case x of
        Finite r \<Rightarrow>
          if 10 ^ 21 \<le> \<bar>r\<bar> then tostr x
          else (if r < 0 then ''-'' else []) @ fixed_digits f (nearest_scaled f \<bar>r\<bar>)
      | NaN \<Rightarrow> ''NaN''
      | PInf \<Rightarrow> ''Infinity''
      | NInf \<Rightarrow> ''-Infinity'')"

section \<open>AMV form: fields, wavelength check, concentrations (static/js/auth/login.js)\<close>

text \<open>
  A form control as \<open>AMVManager\<close> uses it: its \<open>value\<close>, its \<open>min\<close> and \<open>max\<close> attributes
  (\<open>getAttribute\<close> gives \<open>null\<close> for an attribute that is not there), the class
  \<open>is-invalid\<close>, and the texts of the \<open>.invalid-feedback\<close> elements of its parent, in
  document order. Each control has a parent of its own. Assigning to \<open>value\<close> stores the
  string as it is.
\<close>

record field =
  fld_value :: string
  fld_min :: "string option"
  fld_max :: "string option"
  fld_invalid :: bool
  fld_feedback :: "string list"

definition clearFieldError :: "field \<Rightarrow> field" where
  \<comment> \<open>removes the class and the first feedback element, if there is one\<close>
  "clearFieldError f = f\<lparr>fld_invalid := False, fld_feedback := tl (fld_feedback f)\<rparr>"

definition showFieldError :: "field \<Rightarrow> string \<Rightarrow> field" where
  "showFieldError f message =
     (let g = clearFieldError f
      in g\<lparr>fld_invalid := True, fld_feedback := fld_feedback g @ [message]\<rparr>)"

definition parseFloat_attribute :: "string option \<Rightarrow> jsnum" where
  \<comment> \<open>\<open>parseFloat(null)\<close> reads the string \<open>null\<close>\<close>
  "parseFloat_attribute a = parseFloat (case a of None \<Rightarrow> ''null'' | Some t \<Rightarrow> t)"

definition validateWavelengthField ::
  "(jsnum \<Rightarrow> string) \<Rightarrow> field option \<Rightarrow> bool \<times> field option" where
  "validateWavelengthField tostr fo =
     (case fo of
        None \<Rightarrow> (True, None)
      | Some f \<Rightarrow>
          (let v = parseFloat (fld_value f);
               lo = parseFloat_attribute (fld_min f);
               hi = parseFloat_attribute (fld_max f)
           in if trim (fld_value f) = [] then (True, Some f)
              else if isNaN v
                then (False, Some (showFieldError f ''Please enter a valid number''))
              else if truthy lo \<and> jslt v lo
                then (False, Some (showFieldError f (''Value must be at least '' @ tostr lo)))
              else if truthy hi \<and> jsgt v hi
                then (False, Some (showFieldError f (''Value must be no more than '' @ tostr hi)))
              else (True, Some (clearFieldError f))))"

text \<open>
  The page of the AMV form, as \<open>document.querySelector('[name="..."]')\<close> reads it: the
  control with a given name, if there is one. \<open>el?.value || 0\<close> is the value of the control
  unless the control is missing or its value is empty, and then the number \<open>0\<close>, which
  \<open>parseFloat\<close> reads as the string \<open>0\<close>.
\<close>

type_synonym amv_page = "string \<rightharpoonup> field"

definition value_or_0 :: "field option \<Rightarrow> string" where
  "value_or_0 fo =
     (case fo of None \<Rightarrow> ''0'' | Some f \<Rightarrow> if fld_value f = [] then ''0'' else fld_value f)"

definition calculateUVConcentrations :: "(jsnum \<Rightarrow> string) \<Rightarrow> amv_page \<Rightarrow> amv_page" where
  "calculateUVConcentrations tostr page =
     (let weightStandard = parseFloat (value_or_0 (page ''uv_weight_standard''));
          weightSample = parseFloat (value_or_0 (page ''uv_weight_sample''));
          finalConcStandard = parseFloat (value_or_0 (page ''uv_final_concentration_standard''))
      in if jsgt weightStandard (Finite 0) \<and> jsgt finalConcStandard (Finite 0)
         then (let sampleConc = jsmul (jsdiv weightSample weightStandard) finalConcStandard
               in case page ''uv_final_concentration_sample'' of
                    None \<Rightarrow> page
                  | Some sampleField \<Rightarrow>
                      if fld_value sampleField = []
                      then page(''uv_final_concentration_sample'' \<mapsto>
                             sampleField\<lparr>fld_value := toFixed tostr 3 sampleConc\<rparr>)
                      else page)
         else page)"

definition calculateHPLCConcentrations :: "(jsnum \<Rightarrow> string) \<Rightarrow> amv_page \<Rightarrow> amv_page" where
  "calculateHPLCConcentrations tostr page =
     (let weightStandard = parseFloat (value_or_0 (page ''hplc_weight_standard''));
          weightSample = parseFloat (value_or_0 (page ''hplc_weight_sample''));
          finalConcStandard = parseFloat (value_or_0 (page ''hplc_final_concentration_standard''))
      in if jsgt weightStandard (Finite 0) \<and> jsgt finalConcStandard (Finite 0)
         then (let sampleConc = jsmul (jsdiv weightSample weightStandard) finalConcStandard
               in case page ''hplc_final_concentration_sample'' of
                    None \<Rightarrow> page
                  | Some sampleField \<Rightarrow>
                      if fld_value sampleField = []
                      then page(''hplc_final_concentration_sample'' \<mapsto>
                             sampleField\<lparr>fld_value := toFixed tostr 3 sampleConc\<rparr>)
                      else page)
         else page)"

section \<open>AMV form: automatic selection of validation parameters\<close>

text \<open>
  The checkboxes \<open>input[name="val_params"]\<close> of the page in document order, each with its
  \<open>value\<close> and its \<open>checked\<close> state. The table gives the same eleven parameters to each
  of its six instrument types. It is an object literal, so indexing it with a name that
  is not one of its keys finds what every object inherits from \<open>Object.prototype\<close>: a
  function, whose \<open>length\<close> is its number of parameters and which has no \<open>forEach\<close>, or,
  for \<open>__proto__\<close>, the prototype object, which has no \<open>length\<close>; for any other name it
  finds nothing and \<open>|| []\<close> gives the empty list. The function unchecks every box before
  it calls \<open>forEach\<close>, so a \<open>TypeError\<close> thrown there leaves every box unchecked. The
  notification and the info message the function also shows are not part of the model.
\<close>

datatype js_error = SyntaxError | TypeError

record checkbox =
  cb_value :: string
  cb_checked :: bool

definition standard_parameters :: "string list" where
  "standard_parameters =
     [''specificity'', ''system_suitability'', ''system_precision'', ''method_precision'',
      ''intermediate_precision'', ''linearity'', ''lod_loq'', ''lod_loq_precision'',
      ''range'', ''recovery'', ''robustness'']"

definition validationParameters :: "(string \<times> string list) list" where
  "validationParameters =
     [(''uv'', standard_parameters), (''aas'', standard_parameters),
      (''hplc'', standard_parameters), (''uplc'', standard_parameters),
      (''gc'', standard_parameters), (''titration'', standard_parameters)]"

fun check_first :: "string \<Rightarrow> checkbox list \<Rightarrow> checkbox list" where
  \<comment> \<open>\<open>querySelector\<close> finds the first checkbox with the value; it becomes checked\<close>
  "check_first v [] = []"
| "check_first v (c # cs) =
     (if cb_value c = v then c\<lparr>cb_checked := True\<rparr> # cs else c # check_first v cs)"

definition object_prototype_functions :: "(string \<times> nat) list" where
  \<comment> \<open>the functions of \<open>Object.prototype\<close> with their \<open>length\<close>\<close>
  "object_prototype_functions =
     [(''constructor'', 1), (''hasOwnProperty'', 1), (''isPrototypeOf'', 1),
      (''propertyIsEnumerable'', 1), (''toLocaleString'', 0), (''toString'', 0),
      (''valueOf'', 0), (''__defineGetter__'', 2), (''__defineSetter__'', 2),
      (''__lookupGetter__'', 1), (''__lookupSetter__'', 1)]"

datatype property = OwnList "string list" | InheritedFunction nat | InheritedObject | Absent

definition validationParameters_at :: "string \<Rightarrow> property" where
  \<comment> \<open>\<open>validationParameters[instrumentType]\<close>\<close>
  "validationParameters_at instrumentType =
     (case map_of validationParameters instrumentType of
        Some ps \<Rightarrow> OwnList ps
      | None \<Rightarrow>
          (case map_of object_prototype_functions instrumentType of
             Some n \<Rightarrow> InheritedFunction n
           | None \<Rightarrow> if instrumentType = ''__proto__'' then InheritedObject else Absent))"

definition autoSelectValidationParameters ::
  "string \<Rightarrow> checkbox list \<Rightarrow> js_error option \<times> checkbox list" where
  \<comment> \<open>the exception the call ends with, if any, and the boxes afterwards\<close>
  "autoSelectValidationParameters instrumentType boxes =
     (case validationParameters_at instrumentType of
        OwnList selectedParams \<Rightarrow>
          if length selectedParams > 0
          then (None, fold check_first selectedParams
                        (map (\<lambda>c. c\<lparr>cb_checked := False\<rparr>) boxes))
          else (None, boxes)
      | InheritedFunction n \<Rightarrow>
          if n > 0
          then (Some TypeError, map (\<lambda>c. c\<lparr>cb_checked := False\<rparr>) boxes)
          else (None, boxes)
      | InheritedObject \<Rightarrow> (None, boxes)
      | Absent \<Rightarrow> (None, boxes))"

definition checked_values :: "checkbox list \<Rightarrow> string set" where
  "checked_values boxes = set (map cb_value (filter cb_checked boxes))"

section \<open>Dashboard: percentage labels of the distribution chart (DashboardManager)\<close>

text \<open>
  \<open>updateDocumentTypeChart\<close> hands the keys of the distribution to the chart as labels and
  its values as data; the tooltip callback of a segment receives the segment's label,
  its value \<open>context.parsed\<close> and the whole data array. The values of a distribution are
  numbers.
\<close>

definition tooltip_percentage :: "(jsnum \<Rightarrow> string) \<Rightarrow> jsnum \<Rightarrow> jsnum list \<Rightarrow> string" where
  "tooltip_percentage tostr parsed data =
     (let total = foldl jsadd (Finite 0) data
      in toFixed tostr 1 (jsdiv (jsmul parsed (Finite 100)) total))"

definition tooltip_label :: "(jsnum \<Rightarrow> string) \<Rightarrow> string \<Rightarrow> jsnum \<Rightarrow> jsnum list \<Rightarrow> string" where
  "tooltip_label tostr label parsed data =
     label @ '': '' @ tostr parsed @ '' ('' @ tooltip_percentage tostr parsed data @ ''%)''"

definition chart_percentages ::
  "(jsnum \<Rightarrow> string) \<Rightarrow> (string \<times> jsnum) list \<Rightarrow> (string \<times> string) list" where
  \<comment> \<open>the percentage shown for each label of a distribution\<close>
  "chart_percentages tostr distribution =
     map (\<lambda>(label, parsed). (label, tooltip_percentage tostr parsed (map snd distribution)))
       distribution"

section \<open>Document creation: drafts and document numbers (DocumentCreationManager)\<close>

text \<open>
  \<open>this.formData\<close> maps the names of the form's entries to their strings and the key
  \<open>files\<close> to the names of the uploaded files. A draft is what \<open>autoSaveDraft\<close> stores
  under the key \<open>documentDraft\<close>; the stored item of that key is such a draft, or a
  string on which \<open>JSON.parse\<close> or the reading of the timestamp throws.
\<close>

datatype form_value = Text string | FileNames "string list"

record draft_record =
  timestamp :: int
  documentType :: string
  formData :: "(string \<times> form_value) list"

datatype stored_item = Unreadable | Draft draft_record

text \<open>
  The manager with the part of the page and of the browser it works on: the values of
  the controls found by \<open>getElementById\<close> (or by name), the entries of
  \<open>new FormData(form)\<close> when the form exists, the names of the files the upload manager
  holds when that manager exists, what the query for the radio button of a document
  type gives, the stored item, the number of \<open>confirm\<close> dialogs shown, the draft whose
  fields the timer of \<open>restoreDraft\<close> will write, and the bodies of the requests sent for a
  document number. The parameter templates that a change of document type swaps in are
  not modelled.

  \<open>selectDocumentType\<close> puts the type between the quotes of the selector
  \<open>input[name="document_type"][value="..."]\<close>. What \<open>document.querySelector\<close> does with
  the result depends on the type and on the page: it throws a \<open>SyntaxError\<close> when the text
  is no selector (a type with a quote or a line break in it), it finds nothing, or it
  finds an element, which is a document-type radio button with some value, whose change
  listener then sets the current type to that value, or another element, which has no
  such listener.
\<close>

datatype query_result = Throws | NoElement | OtherElement | Radio string

record manager =
  currentDocumentType :: string
  this_formData :: "(string \<times> form_value) list"
  elements :: "string \<rightharpoonup> string"
  form_entries :: "(string \<times> string) list option"
  uploaded_files :: "string list option"
  radio_query :: "string \<Rightarrow> query_result"
  localStorage :: "stored_item option"
  confirms :: nat
  restore_timer :: "draft_record option"
  requests :: "(string \<times> string) list"

definition string_truthy :: "string option \<Rightarrow> bool" where
  \<comment> \<open>\<open>undefined\<close> and the empty string are falsy\<close>
  "string_truthy v = (case v of None \<Rightarrow> False | Some t \<Rightarrow> t \<noteq> [])"

definition hasFormData :: "manager \<Rightarrow> bool" where
  "hasFormData m =
     (let title = elements m ''title''; companyId = elements m ''company_id''
      in string_truthy title \<or> string_truthy companyId)"

definition updateFormData :: "manager \<Rightarrow> manager" where
  "updateFormData m =
     (case form_entries m of
        None \<Rightarrow> m
      | Some entries \<Rightarrow>
          (let fd = fold (\<lambda>(key, v). AList.update key (Text v)) entries [];
               files = (case uploaded_files m of None \<Rightarrow> [] | Some names \<Rightarrow> names)
           in m\<lparr>this_formData := AList.update ''files'' (FileNames files) fd\<rparr>))"

definition autoSaveDraft :: "int \<Rightarrow> bool \<Rightarrow> manager \<Rightarrow> manager" where
  \<comment> \<open>\<open>now\<close> is \<open>Date.now()\<close>; \<open>setItem_throws\<close> says whether the storage refuses the write\<close>
  "autoSaveDraft now setItem_throws m =
     (if \<not> hasFormData m then m
      else let m1 = updateFormData m
           in if setItem_throws then m1
              else m1\<lparr>localStorage := Some (Draft \<lparr>timestamp = now,
                         documentType = currentDocumentType m1,
                         formData = this_formData m1\<rparr>)\<rparr>)"

definition clearDraft :: "manager \<Rightarrow> manager" where
  "clearDraft m = m\<lparr>localStorage := None\<rparr>"

definition selectDocumentType :: "string \<Rightarrow> manager \<Rightarrow> js_error + manager" where
  "selectDocumentType t m =
     (case radio_query m t of
        Throws \<Rightarrow> Inl SyntaxError
      | NoElement \<Rightarrow> Inr m
      | OtherElement \<Rightarrow> Inr m
      | Radio v \<Rightarrow> Inr (m\<lparr>currentDocumentType := v\<rparr>))"

definition restoreDraft :: "draft_record \<Rightarrow> manager \<Rightarrow> js_error + manager" where
  \<comment> \<open>the timer is set only after \<open>selectDocumentType\<close> has returned\<close>
  "restoreDraft draftData m =
     (case selectDocumentType (documentType draftData) m of
        Inl e \<Rightarrow> Inl e
      | Inr m1 \<Rightarrow> Inr (m1\<lparr>restore_timer := Some draftData\<rparr>))"

definition loadDraft :: "int \<Rightarrow> bool \<Rightarrow> manager \<Rightarrow> bool \<times> manager" where
  \<comment> \<open>\<open>now\<close> is \<open>Date.now()\<close>; \<open>answer\<close> is what the user answers if \<open>confirm\<close> is shown;
      an exception of \<open>restoreDraft\<close> is caught and logged, and false is returned\<close>
  "loadDraft now answer m =
     (case localStorage m of
        None \<Rightarrow> (False, m)
      | Some Unreadable \<Rightarrow> (False, m)
      | Some (Draft draftData) \<Rightarrow>
          (let age = now - timestamp draftData
           in if age > 24 * 60 * 60 * 1000 then (False, clearDraft m)
              else (let m1 = m\<lparr>confirms := confirms m + 1\<rparr>
                    in if answer
                       then (case restoreDraft draftData m1 of
                               Inl e \<Rightarrow> (False, m1)
                             | Inr m2 \<Rightarrow> (True, m2))
                       else (False, m1))))"

text \<open>
  \<open>generateDocumentNumber\<close> is asynchronous: it runs up to the \<open>fetch\<close>, and its rest runs
  when the response is there. In between the page is live; \<open>typed\<close> is what the user has
  put into the document-number field by then, if anything.
\<close>

datatype response = Failed | NotOk | Ok string

definition generateDocumentNumber_request :: "manager \<Rightarrow> bool \<times> manager" where
  \<comment> \<open>the boolean says whether the request was sent\<close>
  "generateDocumentNumber_request m =
     (let documentType = currentDocumentType m
      in case elements m ''company_id'' of
           None \<Rightarrow> (False, m)
         | Some companyId \<Rightarrow>
             (case elements m ''document_number'' of
                None \<Rightarrow> (False, m)
              | Some number \<Rightarrow>
                  if companyId = [] \<or> documentType = [] then (False, m)
                  else if trim number \<noteq> [] then (False, m)
                  else (True, m\<lparr>requests := requests m @ [(companyId, documentType)]\<rparr>)))"

definition generateDocumentNumber_response :: "response \<Rightarrow> manager \<Rightarrow> manager" where
  "generateDocumentNumber_response r m =
     (case r of
        Ok document_number \<Rightarrow> m\<lparr>elements := (elements m)(''document_number'' \<mapsto> document_number)\<rparr>
      | _ \<Rightarrow> m)"

definition user_types :: "string option \<Rightarrow> manager \<Rightarrow> manager" where
  "user_types typed m =
     (case typed of
        None \<Rightarrow> m
      | Some t \<Rightarrow> m\<lparr>elements := (elements m)(''document_number'' \<mapsto> t)\<rparr>)"

definition generateDocumentNumber :: "string option \<Rightarrow> response \<Rightarrow> manager \<Rightarrow> manager" where
  "generateDocumentNumber typed r m =
     (case generateDocumentNumber_request m of
        (False, m1) \<Rightarrow> m1
      | (True, m1) \<Rightarrow> generateDocumentNumber_response r (user_types typed m1))"

section \<open>Notation for the statements and example pages\<close>

abbreviation field_number :: "field \<Rightarrow> jsnum" where
  "field_number f \<equiv> parseFloat (fld_value f)"

abbreviation field_lower :: "field \<Rightarrow> jsnum" where
  "field_lower f \<equiv> parseFloat_attribute (fld_min f)"

abbreviation field_upper :: "field \<Rightarrow> jsnum" where
  "field_upper f \<equiv> parseFloat_attribute (fld_max f)"

definition integer_tostr :: "jsnum \<Rightarrow> string" where
  \<comment> \<open>what \<open>Number::toString\<close> writes for an integer below \<open>10\<^sup>2\<^sup>1\<close> in magnitude\<close>
  "integer_tostr x =
     (case x of
        Finite r \<Rightarrow> (if r < 0 then ''-'' else []) @ digits_of_int \<lfloor>\<bar>r\<bar>\<rfloor>
      | NaN \<Rightarrow> ''NaN''
      | PInf \<Rightarrow> ''Infinity''
      | NInf \<Rightarrow> ''-Infinity'')"

definition plain_field :: "string \<Rightarrow> string option \<Rightarrow> string option \<Rightarrow> field" where
  "plain_field v lo hi =
     \<lparr>fld_value = v, fld_min = lo, fld_max = hi, fld_invalid = False, fld_feedback = []\<rparr>"

definition uv_page :: "string \<Rightarrow> string \<Rightarrow> string \<Rightarrow> string \<Rightarrow> amv_page" where
  \<comment> \<open>standard weight, sample weight, standard concentration, sample concentration\<close>
  "uv_page ws wsa c sc =
     [''uv_weight_standard'' \<mapsto> plain_field ws None None,
      ''uv_weight_sample'' \<mapsto> plain_field wsa None None,
      ''uv_final_concentration_standard'' \<mapsto> plain_field c None None,
      ''uv_final_concentration_sample'' \<mapsto> plain_field sc None None]"

definition hplc_page :: "string \<Rightarrow> string \<Rightarrow> string \<Rightarrow> string \<Rightarrow> amv_page" where
  "hplc_page ws wsa c sc =
     [''hplc_weight_standard'' \<mapsto> plain_field ws None None,
      ''hplc_weight_sample'' \<mapsto> plain_field wsa None None,
      ''hplc_final_concentration_standard'' \<mapsto> plain_field c None None,
      ''hplc_final_concentration_sample'' \<mapsto> plain_field sc None None]"

definition file_input_of :: "string \<Rightarrow> bool \<Rightarrow> bool \<Rightarrow> string option \<Rightarrow> file_input" where
  \<comment> \<open>name, required, has a file, label text\<close>
  "file_input_of name required has_file label =
     \<lparr>fi_name = name, fi_class_file_input = True, fi_required = required,
      fi_has_file = has_file, fi_label_text = label\<rparr>"

definition example_boxes :: "checkbox list" where
  \<comment> \<open>a box for each standard parameter, none checked, after a checked box \<open>accuracy\<close>\<close>
  "example_boxes =
     \<lparr>cb_value = ''accuracy'', cb_checked = True\<rparr>
       # map (\<lambda>v. \<lparr>cb_value = v, cb_checked = False\<rparr>) standard_parameters"

definition example_draft :: draft_record where
  "example_draft =
     \<lparr>timestamp = 1000, documentType = ''PV'',
      formData = [(''title'', Text ''Blend uniformity''), (''files'', FileNames [])]\<rparr>"

definition example_radio_query :: "string \<Rightarrow> query_result" where
  \<comment> \<open>a page with the five radio buttons; with the type \<open>P"V\<close> the selector is no selector\<close>
  "example_radio_query t =
     (if t \<in> set [''AMV'', ''PV'', ''Stability'', ''Degradation'', ''Compatibility''] then Radio t
      else if t = [CHR ''P'', CHR 0x22, CHR ''V''] then Throws
      else NoElement)"

definition example_manager :: "string \<Rightarrow> string \<Rightarrow> manager" where
  \<comment> \<open>a page with the given title and company identifier and the example draft stored\<close>
  "example_manager title company =
     \<lparr>currentDocumentType = ''AMV'', this_formData = [],
      elements = [''title'' \<mapsto> title, ''company_id'' \<mapsto> company, ''document_number'' \<mapsto> []],
      form_entries = Some [(''title'', title), (''company_id'', company), (''document_number'', [])],
      uploaded_files = Some [],
      radio_query = example_radio_query,
      localStorage = Some (Draft example_draft), confirms = 0, restore_timer = None,
      requests = []\<rparr>"

section \<open>Properties of the required-file check\<close>

lemma sublist_join:
  "x \<in> set xs \<Longrightarrow> sublist x (join sep xs)"
proof (induction sep xs rule: join.induct)
  case (1 sep)
  then show ?case by simp
next
  case (2 sep x')
  then show ?case by simp
next
  case (3 sep a b ys)
  show ?case
  proof (cases "x = a")
    case True
    then show ?thesis by (simp add: sublist_append_rightI)
  next
    case False
    with 3 have "sublist x (join sep (b # ys))" by simp
    then have "sublist x ((a @ sep) @ join sep (b # ys))"
      by (simp only: sublist_append simp_thms)
    then show ?thesis by simp
  qed
qed

lemma sublist_required_files_message:
  "x \<in> set xs \<Longrightarrow> sublist x (required_files_message xs)"
  unfolding required_files_message_def
  by (simp only: sublist_append sublist_join simp_thms)

text \<open>
  Claim C4. When at least one required file input has no file, \<open>validateRequiredFiles\<close>
  returns false and shows exactly one message, which is the fixed prefix followed by the
  labels of all the missing inputs, so every missing input's label occurs in it; when no
  required input is missing it returns true and shows nothing.
\<close>

theorem validateRequiredFiles_single_message:
  "(missingInputs page \<noteq> [] \<longrightarrow>
      validateRequiredFiles page shown =
        (False, shown @ [required_files_message (map input_label (missingInputs page))])
      \<and> (\<forall>i \<in> set (missingInputs page).
            sublist (input_label i) (required_files_message (map input_label (missingInputs page)))))
   \<and> (missingInputs page = [] \<longrightarrow> validateRequiredFiles page shown = (True, shown))"
proof (intro conjI impI ballI)
  assume "missingInputs page \<noteq> []"
  then show "validateRequiredFiles page shown =
      (False, shown @ [required_files_message (map input_label (missingInputs page))])"
    by (simp add: validateRequiredFiles_def showError_def)
next
  fix i assume "i \<in> set (missingInputs page)"
  then have "input_label i \<in> set (map input_label (missingInputs page))" by simp
  then show "sublist (input_label i)
      (required_files_message (map input_label (missingInputs page)))"
    by (rule sublist_required_files_message)
next
  assume "missingInputs page = []"
  then show "validateRequiredFiles page shown = (True, shown)"
    by (simp add: validateRequiredFiles_def)
qed


section \<open>Properties of draft loading and saving\<close>

text \<open>
  Claim C1. For a stored draft with timestamp \<open>t\<close>: when \<open>now - t\<close> is more than 24 hours,
  \<open>loadDraft\<close> removes the stored item, shows no dialog and returns false; when \<open>now - t\<close> is
  at most 24 hours it shows the confirm dialog and leaves the stored item in place. It
  then returns true exactly when the user says yes and the query for the radio button of
  the draft's type does not throw, and then the restoration of that draft is scheduled;
  when it returns false nothing is scheduled.
\<close>

theorem loadDraft_age_gate:
  assumes "localStorage m = Some (Draft d)"
  shows "(now - timestamp d > 24 * 60 * 60 * 1000 \<longrightarrow>
            loadDraft now answer m = (False, m\<lparr>localStorage := None\<rparr>))
       \<and> (now - timestamp d \<le> 24 * 60 * 60 * 1000 \<longrightarrow>
            confirms (snd (loadDraft now answer m)) = confirms m + 1
          \<and> localStorage (snd (loadDraft now answer m)) = Some (Draft d)
          \<and> (fst (loadDraft now answer m)
                \<longleftrightarrow> answer \<and> radio_query m (documentType d) \<noteq> Throws)
          \<and> (fst (loadDraft now answer m) \<longrightarrow>
                restore_timer (snd (loadDraft now answer m)) = Some d)
          \<and> (\<not> fst (loadDraft now answer m) \<longrightarrow>
                restore_timer (snd (loadDraft now answer m)) = restore_timer m))"
proof (intro conjI impI)
  assume "now - timestamp d > 24 * 60 * 60 * 1000"
  with assms show "loadDraft now answer m = (False, m\<lparr>localStorage := None\<rparr>)"
    by (simp add: loadDraft_def clearDraft_def Let_def)
next
  assume fresh: "now - timestamp d \<le> 24 * 60 * 60 * 1000"
  note defs = loadDraft_def restoreDraft_def selectDocumentType_def Let_def
  show "confirms (snd (loadDraft now answer m)) = confirms m + 1"
    using assms fresh by (simp add: defs split: query_result.split)
  show "localStorage (snd (loadDraft now answer m)) = Some (Draft d)"
    using assms fresh by (simp add: defs split: query_result.split)
  show "fst (loadDraft now answer m) \<longleftrightarrow> answer \<and> radio_query m (documentType d) \<noteq> Throws"
    using assms fresh by (simp add: defs split: query_result.split)
  show "restore_timer (snd (loadDraft now answer m)) = Some d"
    if "fst (loadDraft now answer m)"
    using that assms fresh by (simp add: defs split: query_result.splits if_splits)
  show "restore_timer (snd (loadDraft now answer m)) = restore_timer m"
    if "\<not> fst (loadDraft now answer m)"
    using that assms fresh by (simp add: defs split: query_result.splits if_splits)
qed

theorem loadDraft_age_gate_witness:
  "loadDraft 86401001 True (example_manager [] [])
     = (False, (example_manager [] [])\<lparr>localStorage := None\<rparr>)
   \<and> fst (loadDraft 86401000 True (example_manager [] []))
   \<and> confirms (snd (loadDraft 86401000 True (example_manager [] []))) = 1
   \<and> localStorage (snd (loadDraft 86401000 True (example_manager [] [])))
       = Some (Draft example_draft)
   \<and> restore_timer (snd (loadDraft 86401000 True (example_manager [] []))) = Some example_draft
   \<and> \<not> fst (loadDraft 86401000 True ((example_manager [] [])
        \<lparr>localStorage := Some (Draft (example_draft\<lparr>documentType := [CHR ''P'', CHR 0x22, CHR ''V'']\<rparr>))\<rparr>))
   \<and> restore_timer (snd (loadDraft 86401000 True ((example_manager [] [])
        \<lparr>localStorage := Some (Draft (example_draft\<lparr>documentType := [CHR ''P'', CHR 0x22, CHR ''V'']\<rparr>))\<rparr>)))
       = None"
proof -
  define quoted where "quoted = example_draft\<lparr>documentType := [CHR ''P'', CHR 0x22, CHR ''V'']\<rparr>"
  define m' where "m' = (example_manager [] [])\<lparr>localStorage := Some (Draft quoted)\<rparr>"
  have stored: "localStorage (example_manager [] []) = Some (Draft example_draft)"
    by (simp add: example_manager_def)
  have stored': "localStorage m' = Some (Draft quoted)"
    by (simp add: m'_def)
  have t: "timestamp example_draft = 1000" "timestamp quoted = 1000"
    by (simp_all add: example_draft_def quoted_def)
  have c: "confirms (example_manager [] []) = 0"
    by (simp add: example_manager_def)
  have found: "radio_query (example_manager [] []) (documentType example_draft) \<noteq> Throws"
    by (simp add: example_manager_def example_draft_def example_radio_query_def)
  have thrown: "radio_query m' (documentType quoted) = Throws"
    by (simp add: m'_def quoted_def example_manager_def example_radio_query_def)
  have none: "restore_timer m' = None"
    by (simp add: m'_def example_manager_def)
  have expired: "86401001 - timestamp example_draft > 24 * 60 * 60 * 1000"
    and fresh: "86401000 - timestamp example_draft \<le> 24 * 60 * 60 * 1000"
    and fresh': "86401000 - timestamp quoted \<le> 24 * 60 * 60 * 1000"
    by (simp_all add: t)
  from loadDraft_age_gate [OF stored, of 86401001 True] expired
  have first: "loadDraft 86401001 True (example_manager [] [])
      = (False, (example_manager [] [])\<lparr>localStorage := None\<rparr>)"
    by blast
  from loadDraft_age_gate [OF stored, of 86401000 True] fresh found
  have second: "fst (loadDraft 86401000 True (example_manager [] []))
      \<and> confirms (snd (loadDraft 86401000 True (example_manager [] [])))
          = confirms (example_manager [] []) + 1
      \<and> localStorage (snd (loadDraft 86401000 True (example_manager [] [])))
          = Some (Draft example_draft)
      \<and> restore_timer (snd (loadDraft 86401000 True (example_manager [] []))) = Some example_draft"
    by blast
  from loadDraft_age_gate [OF stored', of 86401000 True] fresh' thrown
  have third: "\<not> fst (loadDraft 86401000 True m')
      \<and> restore_timer (snd (loadDraft 86401000 True m')) = restore_timer m'"
    by blast
  from first second third show ?thesis
    by (simp add: c none) (simp add: m'_def quoted_def)
qed

lemma currentDocumentType_updateFormData:
  "currentDocumentType (updateFormData m) = currentDocumentType m"
  by (simp add: updateFormData_def Let_def split: option.split)

lemma localStorage_updateFormData:
  "localStorage (updateFormData m) = localStorage m"
  by (simp add: updateFormData_def Let_def split: option.split)

lemma hasFormData_iff:
  "hasFormData m \<longleftrightarrow>
     (\<exists>t. t \<noteq> [] \<and> (elements m ''title'' = Some t \<or> elements m ''company_id'' = Some t))"
  by (auto simp add: hasFormData_def string_truthy_def Let_def split: option.splits)

text \<open>
  Claim C7. \<open>autoSaveDraft\<close>, which both the 30-second timer and the unload hook call,
  changes nothing when the title and the company identifier are both empty or missing;
  whenever it changes the stored item, one of the two is not empty; and when one of them
  is not empty and the storage accepts the write, the stored item is the draft made of
  the time, the current document type and the collected form data.
\<close>

theorem autoSaveDraft_needs_content:
  "((elements m ''title'' = None \<or> elements m ''title'' = Some [])
      \<and> (elements m ''company_id'' = None \<or> elements m ''company_id'' = Some [])
      \<longrightarrow> autoSaveDraft now setItem_throws m = m)
   \<and> (localStorage (autoSaveDraft now setItem_throws m) \<noteq> localStorage m \<longrightarrow>
        (\<exists>t. t \<noteq> [] \<and> (elements m ''title'' = Some t \<or> elements m ''company_id'' = Some t)))
   \<and> (hasFormData m \<and> \<not> setItem_throws \<longrightarrow>
        localStorage (autoSaveDraft now setItem_throws m)
          = Some (Draft \<lparr>timestamp = now, documentType = currentDocumentType m,
                          formData = this_formData (updateFormData m)\<rparr>))"
proof (intro conjI impI)
  assume "(elements m ''title'' = None \<or> elements m ''title'' = Some [])
      \<and> (elements m ''company_id'' = None \<or> elements m ''company_id'' = Some [])"
  then have "\<not> hasFormData m"
    by (auto simp add: hasFormData_iff)
  then show "autoSaveDraft now setItem_throws m = m"
    by (simp add: autoSaveDraft_def)
next
  assume changed: "localStorage (autoSaveDraft now setItem_throws m) \<noteq> localStorage m"
  have "hasFormData m"
  proof (rule ccontr)
    assume "\<not> hasFormData m"
    then have "autoSaveDraft now setItem_throws m = m"
      by (simp add: autoSaveDraft_def)
    with changed show False by simp
  qed
  then show "\<exists>t. t \<noteq> [] \<and> (elements m ''title'' = Some t \<or> elements m ''company_id'' = Some t)"
    by (simp add: hasFormData_iff)
next
  assume "hasFormData m \<and> \<not> setItem_throws"
  then show "localStorage (autoSaveDraft now setItem_throws m)
      = Some (Draft \<lparr>timestamp = now, documentType = currentDocumentType m,
                      formData = this_formData (updateFormData m)\<rparr>)"
    by (simp add: autoSaveDraft_def Let_def currentDocumentType_updateFormData)
qed

section \<open>Properties of the document-number request\<close>

lemma generateDocumentNumber_request_sent:
  "fst (generateDocumentNumber_request m) \<longleftrightarrow>
     (\<exists>c number. elements m ''company_id'' = Some c \<and> c \<noteq> []
        \<and> currentDocumentType m \<noteq> []
        \<and> elements m ''document_number'' = Some number \<and> trim number = [])"
  by (auto simp add: generateDocumentNumber_request_def Let_def split: option.splits)

lemma generateDocumentNumber_request_elements:
  "elements (snd (generateDocumentNumber_request m)) = elements m"
  by (simp add: generateDocumentNumber_request_def Let_def split: option.splits)

lemma generateDocumentNumber_request_not_sent:
  "\<not> fst (generateDocumentNumber_request m) \<Longrightarrow> snd (generateDocumentNumber_request m) = m"
  by (auto simp add: generateDocumentNumber_request_def Let_def split: option.splits if_splits)

text \<open>
  The claim C3 as it is written fails: the field is empty when the request goes out, the
  user types \<open>QA-7\<close> while it is pending, and the response \<open>DOC-001\<close> replaces what was typed.
\<close>

theorem generateDocumentNumber_overwrites:
  "elements (user_types (Some ''QA-7'') (snd (generateDocumentNumber_request (example_manager ''Assay'' ''12''))))
       ''document_number'' = Some ''QA-7''
   \<and> elements (generateDocumentNumber (Some ''QA-7'') (Ok ''DOC-001'') (example_manager ''Assay'' ''12''))
       ''document_number'' = Some ''DOC-001''"
  by (simp add: generateDocumentNumber_def generateDocumentNumber_request_def
      generateDocumentNumber_response_def user_types_def example_manager_def trim_def Let_def)

text \<open>
  Claim C3, amended. \<open>generateDocumentNumber\<close> sends a request only when the company
  identifier and the document type are set and the document-number field holds nothing
  but white space at that moment; when no request is sent nothing changes; and when the
  response to a request is successful the field is set to the returned number, whatever
  the user has typed into it in the meantime.
\<close>

theorem generateDocumentNumber_request_then_write:
  "(fst (generateDocumentNumber_request m) \<longrightarrow>
      (\<exists>number. elements m ''document_number'' = Some number \<and> trim number = [])
      \<and> elements (generateDocumentNumber typed (Ok n) m) ''document_number'' = Some n)
   \<and> (\<not> fst (generateDocumentNumber_request m) \<longrightarrow> generateDocumentNumber typed r m = m)"
proof (intro conjI impI)
  assume sent: "fst (generateDocumentNumber_request m)"
  then show "\<exists>number. elements m ''document_number'' = Some number \<and> trim number = []"
    by (auto simp add: generateDocumentNumber_request_sent)
  from sent obtain m1 where m1: "generateDocumentNumber_request m = (True, m1)"
    by (cases "generateDocumentNumber_request m") auto
  then show "elements (generateDocumentNumber typed (Ok n) m) ''document_number'' = Some n"
    by (simp add: generateDocumentNumber_def generateDocumentNumber_response_def)
next
  assume not_sent: "\<not> fst (generateDocumentNumber_request m)"
  then have "generateDocumentNumber_request m = (False, m)"
    using generateDocumentNumber_request_not_sent [OF not_sent]
    by (cases "generateDocumentNumber_request m") auto
  then show "generateDocumentNumber typed r m = m"
    by (simp add: generateDocumentNumber_def)
qed

theorem generateDocumentNumber_request_then_write_witness:
  "fst (generateDocumentNumber_request (example_manager ''Assay'' ''12''))
   \<and> elements (generateDocumentNumber None (Ok ''DOC-001'') (example_manager ''Assay'' ''12''))
       ''document_number'' = Some ''DOC-001''
   \<and> \<not> fst (generateDocumentNumber_request (example_manager ''Assay'' []))
   \<and> generateDocumentNumber None (Ok ''DOC-001'') (example_manager ''Assay'' [])
       = example_manager ''Assay'' []"
proof -
  have sent: "fst (generateDocumentNumber_request (example_manager ''Assay'' ''12''))"
    by (simp add: generateDocumentNumber_request_def example_manager_def trim_def Let_def)
  have not_sent: "\<not> fst (generateDocumentNumber_request (example_manager ''Assay'' []))"
    by (simp add: generateDocumentNumber_request_def example_manager_def trim_def Let_def)
  show ?thesis
    using sent not_sent
      generateDocumentNumber_request_then_write
        [of "example_manager ''Assay'' ''12''" None "''DOC-001''" "Ok ''DOC-001''"]
      generateDocumentNumber_request_then_write
        [of "example_manager ''Assay'' []" None "''DOC-001''" "Ok ''DOC-001''"]
    by simp
qed


theorem autoSaveDraft_needs_content_witness:
  "autoSaveDraft 5000 False (example_manager [] []) = example_manager [] []
   \<and> localStorage (autoSaveDraft 5000 False (example_manager ''Assay'' []))
       \<noteq> localStorage (example_manager ''Assay'' [])
   \<and> localStorage (autoSaveDraft 5000 False (example_manager ''Assay'' []))
       = Some (Draft \<lparr>timestamp = 5000, documentType = ''AMV'',
            formData = [(''title'', Text ''Assay''), (''company_id'', Text []),
                        (''document_number'', Text []), (''files'', FileNames [])]\<rparr>)"
proof -
  have empty: "elements (example_manager [] []) ''title'' = Some []"
    "elements (example_manager [] []) ''company_id'' = Some []"
    by (simp_all add: example_manager_def)
  have content: "hasFormData (example_manager ''Assay'' [])"
    by (simp add: hasFormData_def string_truthy_def example_manager_def)
  have collected: "this_formData (updateFormData (example_manager ''Assay'' []))
      = [(''title'', Text ''Assay''), (''company_id'', Text []),
         (''document_number'', Text []), (''files'', FileNames [])]"
    by (simp add: updateFormData_def example_manager_def)
  have type: "currentDocumentType (example_manager ''Assay'' []) = ''AMV''"
    by (simp add: example_manager_def)
  have stored: "localStorage (example_manager ''Assay'' []) = Some (Draft example_draft)"
    by (simp add: example_manager_def)
  have differs: "timestamp example_draft \<noteq> 5000"
    by (simp add: example_draft_def)
  from autoSaveDraft_needs_content [of "example_manager [] []" 5000 False] empty
  have first: "autoSaveDraft 5000 False (example_manager [] []) = example_manager [] []"
    by blast
  from autoSaveDraft_needs_content [of "example_manager ''Assay'' []" 5000 False] content
  have "localStorage (autoSaveDraft 5000 False (example_manager ''Assay'' []))
      = Some (Draft \<lparr>timestamp = 5000,
           documentType = currentDocumentType (example_manager ''Assay'' []),
           formData = this_formData (updateFormData (example_manager ''Assay'' []))\<rparr>)"
    by blast
  then have third: "localStorage (autoSaveDraft 5000 False (example_manager ''Assay'' []))
      = Some (Draft \<lparr>timestamp = 5000, documentType = ''AMV'',
           formData = [(''title'', Text ''Assay''), (''company_id'', Text []),
                       (''document_number'', Text []), (''files'', FileNames [])]\<rparr>)"
    by (simp only: collected type)
  have second: "localStorage (autoSaveDraft 5000 False (example_manager ''Assay'' []))
      \<noteq> localStorage (example_manager ''Assay'' [])"
    by (simp add: third stored example_draft_def)
  from first second third show ?thesis by blast
qed

section \<open>Witness of the required-file check\<close>

theorem validateRequiredFiles_single_message_witness:
  "validateRequiredFiles
      [file_input_of ''stp_file'' True False (Some ''STP File''),
       file_input_of ''logo'' False False None,
       file_input_of ''raw_data_file'' True False None,
       file_input_of ''method_file'' True True (Some ''Method'')] []
     = (False, [''Please upload the following required files: STP File, raw_data_file''])
   \<and> sublist ''STP File'' ''Please upload the following required files: STP File, raw_data_file''
   \<and> sublist ''raw_data_file''
        ''Please upload the following required files: STP File, raw_data_file''
   \<and> validateRequiredFiles
      [file_input_of ''logo'' False False None,
       file_input_of ''method_file'' True True (Some ''Method'')] [] = (True, [])"
proof -
  have missing: "missingInputs
      [file_input_of ''stp_file'' True False (Some ''STP File''),
       file_input_of ''logo'' False False None,
       file_input_of ''raw_data_file'' True False None,
       file_input_of ''method_file'' True True (Some ''Method'')]
     = [file_input_of ''stp_file'' True False (Some ''STP File''),
        file_input_of ''raw_data_file'' True False None]"
    by (simp add: missingInputs_def requiredInputs_def file_input_of_def)
  have none: "missingInputs
      [file_input_of ''logo'' False False None,
       file_input_of ''method_file'' True True (Some ''Method'')] = []"
    by (simp add: missingInputs_def requiredInputs_def file_input_of_def)
  have labels: "input_label (file_input_of ''stp_file'' True False (Some ''STP File'')) = ''STP File''"
    "input_label (file_input_of ''raw_data_file'' True False None) = ''raw_data_file''"
    by (simp_all add: input_label_def file_input_of_def)
  have message: "required_files_message [''STP File'', ''raw_data_file'']
      = ''Please upload the following required files: STP File, raw_data_file''"
    by (simp add: required_files_message_def)
  show ?thesis
    using validateRequiredFiles_single_message
        [of "[file_input_of ''stp_file'' True False (Some ''STP File''),
              file_input_of ''logo'' False False None,
              file_input_of ''raw_data_file'' True False None,
              file_input_of ''method_file'' True True (Some ''Method'')]" "[]"]
      validateRequiredFiles_single_message
        [of "[file_input_of ''logo'' False False None,
              file_input_of ''method_file'' True True (Some ''Method'')]" "[]"]
    by (simp add: missing none labels message)
qed

section \<open>Properties of the arithmetic\<close>

text \<open>
  \<open>fl\<close> gives an integer below \<open>2\<^sup>5\<^sup>3\<close> in magnitude unchanged, and in the normal range it
  gives a finite value within a \<open>2\<^sup>5\<^sup>3\<close>rd of its argument.
\<close>

lemma round_half_even_close:
  "\<bar>of_int (round_half_even y) - y\<bar> \<le> 1 / 2"
proof -
  define f where "f = \<lfloor>y\<rfloor>"
  have f1: "of_int f \<le> y" and f2: "y < of_int f + 1"
    unfolding f_def by linarith+
  consider "y - of_int f < 1 / 2" | "1 / 2 < y - of_int f" | "y - of_int f = 1 / 2"
    by linarith
  then show ?thesis
  proof cases
    case 1
    then have "round_half_even y = f"
      by (simp add: round_half_even_def f_def)
    with 1 f1 show ?thesis by simp
  next
    case 2
    then have "round_half_even y = f + 1"
      by (simp add: round_half_even_def f_def)
    with 2 f2 show ?thesis by simp
  next
    case 3
    then have "round_half_even y = f \<or> round_half_even y = f + 1"
      by (simp add: round_half_even_def f_def Let_def)
    with 3 show ?thesis by auto
  qed
qed

lemma round_half_even_of_int:
  "round_half_even (of_int k) = k"
  by (simp add: round_half_even_def)

lemma two_powi_of_bits:
  assumes "0 < p"
  shows "(2::rat) powi (bitlen p - 1) \<le> of_int p \<and> of_int p < (2::rat) powi bitlen p"
proof -
  from bitlen_bounds [OF assms]
  have lo: "2 ^ nat (bitlen p - 1) \<le> p" and hi: "p < 2 ^ nat (bitlen p)"
    by simp_all
  have pos: "1 \<le> bitlen p"
  proof (rule ccontr)
    assume "\<not> 1 \<le> bitlen p"
    then have "nat (bitlen p) = 0" by simp
    with hi assms show False by simp
  qed
  from lo have "(of_int (2 ^ nat (bitlen p - 1)) :: rat) \<le> of_int p"
    by (simp only: of_int_le_iff)
  then have a: "(2::rat) powi (bitlen p - 1) \<le> of_int p"
    using pos by (simp add: power_int_nonneg_exp)
  from hi have "(of_int p :: rat) < of_int (2 ^ nat (bitlen p))"
    by (simp only: of_int_less_iff)
  then have b: "of_int p < (2::rat) powi bitlen p"
    using pos by (simp add: power_int_nonneg_exp)
  from a b show ?thesis by (rule conjI)
qed

lemma ilog2_bounds:
  assumes "0 < x"
  shows "2 powi ilog2 x \<le> x \<and> x < 2 powi (ilog2 x + 1)"
proof -
  obtain p q where pq: "quotient_of x = (p, q)"
    by (cases "quotient_of x")
  then have q: "0 < q"
    by (rule quotient_of_denom_pos)
  from pq have x: "x = of_int p / of_int q"
    by (rule quotient_of_div)
  with assms q have p: "0 < p"
    by (simp add: zero_less_divide_iff)
  note P = two_powi_of_bits [OF p] and Q = two_powi_of_bits [OF q]
  have qpos: "(0::rat) < of_int q" using q by simp
  have ppos: "(0::rat) < of_int p" using p by simp
  have "x < 2 powi bitlen p / of_int q"
    unfolding x using P qpos by (simp add: divide_strict_right_mono)
  also have "\<dots> \<le> 2 powi bitlen p / 2 powi (bitlen q - 1)"
    using Q qpos by (intro divide_left_mono) simp_all
  also have "\<dots> = 2 powi (bitlen p - (bitlen q - 1))"
    by (rule power_int_diff [symmetric]) simp
  also have "\<dots> = 2 powi (bitlen p - bitlen q + 1)"
    by (rule arg_cong [where f = "\<lambda>e. 2 powi e"]) simp
  finally have upper: "x < 2 powi (bitlen p - bitlen q + 1)" .
  have "(2::rat) powi (bitlen p - bitlen q - 1) = 2 powi (bitlen p - 1) / 2 powi bitlen q"
    by (simp add: power_int_diff)
  also have "\<dots> \<le> of_int p / 2 powi bitlen q"
    using P by (intro divide_right_mono) simp_all
  also have "\<dots> < of_int p / of_int q"
    using Q qpos ppos by (intro divide_strict_left_mono) simp_all
  finally have lower: "2 powi (bitlen p - bitlen q - 1) < x"
    unfolding x .
  show ?thesis
  proof (cases "2 powi (bitlen p - bitlen q) \<le> x")
    case True
    then have "ilog2 x = bitlen p - bitlen q"
      by (simp add: ilog2_def pq Let_def)
    with True upper show ?thesis by simp
  next
    case False
    then have "ilog2 x = bitlen p - bitlen q - 1"
      by (simp add: ilog2_def pq Let_def)
    with False lower show ?thesis by simp
  qed
qed


lemma fl_unfold:
  assumes "x \<noteq> 0" and "a = \<bar>x\<bar>" and "e = ilog2 a" and "- 1022 \<le> e" and "e \<le> 1022"
    and "ulp = 2 powi (e - 52)" and "n = round_half_even (a / ulp)"
  shows "fl x = Finite (if 0 < x then of_int n * ulp else - (of_int n * ulp))"
proof -
  have m: "max (ilog2 \<bar>x\<bar>) (- 1022) = e"
    using assms(2,3,4) by (simp add: max_def)
  have c1: "\<not> 1023 < e"
    using assms(5) by simp
  have c2: "\<not> (e = 1023 \<and> P)" for P
    using assms(5) by simp
  have "fl x = Finite (if 0 < x
      then of_int (round_half_even (\<bar>x\<bar> / 2 powi (e - 52))) * 2 powi (e - 52)
      else - (of_int (round_half_even (\<bar>x\<bar> / 2 powi (e - 52))) * 2 powi (e - 52)))"
    unfolding fl_def Let_def m by (simp only: assms(1) c1 c2 if_False)
  then show ?thesis
    by (simp only: assms(2,6,7))
qed

lemma fl_exact:
  assumes "x \<noteq> 0" and "- 1022 \<le> ilog2 \<bar>x\<bar>" and "ilog2 \<bar>x\<bar> \<le> 1022"
    and "\<bar>x\<bar> / 2 powi (ilog2 \<bar>x\<bar> - 52) = of_int k"
  shows "fl x = Finite x"
proof -
  define ulp :: rat where "ulp = 2 powi (ilog2 \<bar>x\<bar> - 52)"
  have ulp: "ulp \<noteq> 0"
    by (simp add: ulp_def)
  from assms(4) have k: "\<bar>x\<bar> / ulp = of_int k"
    by (simp only: ulp_def)
  then have n: "k = round_half_even (\<bar>x\<bar> / ulp)"
    by (simp only: round_half_even_of_int)
  from k ulp have product: "of_int k * ulp = \<bar>x\<bar>"
    by (simp add: field_simps)
  have "fl x = Finite (if 0 < x then of_int k * ulp else - (of_int k * ulp))"
    using assms(1) refl refl assms(2,3) ulp_def n by (rule fl_unfold)
  also have "(if 0 < x then of_int k * ulp else - (of_int k * ulp)) = x"
    unfolding product using assms(1) by simp
  finally show ?thesis .
qed

lemma fl_of_int:
  assumes "\<bar>n\<bar> < 2 ^ 53"
  shows "fl (of_int n) = Finite (of_int n)"
proof (cases "n = 0")
  case True
  then show ?thesis by (simp add: fl_def)
next
  case False
  define m where "m = \<bar>n\<bar>"
  define e where "e = ilog2 (of_int m)"
  have m: "0 < m" "m < 2 ^ 53"
    using False assms by (simp_all add: m_def)
  then have "(0::rat) < of_int m" by simp
  from ilog2_bounds [OF this]
  have lo: "2 powi e \<le> (of_int m :: rat)" and hi: "(of_int m :: rat) < 2 powi (e + 1)"
    by (simp_all add: e_def)
  have "(1::rat) \<le> of_int m" using m by simp
  with hi have "(2::rat) powi 0 < 2 powi (e + 1)" by simp
  then have e0: "0 \<le> e"
    using power_int_increasing [of "e + 1" 0 "2::rat"] by (cases "0 \<le> e") auto
  have "(of_int m :: rat) < 2 powi 53"
    using m by (simp add: of_int_less_iff [symmetric] del: of_int_less_iff)
  with lo have "(2::rat) powi e < 2 powi 53" by simp
  then have e52: "e \<le> 52"
    using power_int_increasing [of 53 e "2::rat"] by (cases "e \<le> 52") auto
  have abs: "\<bar>of_int n :: rat\<bar> = of_int m"
    by (simp add: m_def)
  have "(of_int m :: rat) / 2 powi (e - 52) = of_int m * 2 powi (52 - e)"
    using power_int_minus [of "2::rat" "52 - e"] by (simp add: field_simps)
  also have "\<dots> = of_int m * 2 ^ nat (52 - e)"
    using e52 by (simp add: power_int_nonneg_exp)
  also have "\<dots> = of_int (m * 2 ^ nat (52 - e))"
    by simp
  finally have "\<bar>of_int n :: rat\<bar> / 2 powi (ilog2 \<bar>of_int n :: rat\<bar> - 52)
      = of_int (m * 2 ^ nat (52 - e))"
    by (simp only: abs e_def)
  moreover have "of_int n \<noteq> (0::rat)" using False by simp
  moreover have "- 1022 \<le> ilog2 \<bar>of_int n :: rat\<bar>" "ilog2 \<bar>of_int n :: rat\<bar> \<le> 1022"
    using e0 e52 by (simp_all add: abs e_def [symmetric])
  ultimately show ?thesis
    by (intro fl_exact)
qed

lemma fl_error:
  assumes "2 powi (- 1022) \<le> \<bar>x\<bar>" and "\<bar>x\<bar> < 2 powi 1023"
  shows "\<exists>y. fl x = Finite y \<and> \<bar>y - x\<bar> \<le> \<bar>x\<bar> / 2 ^ 53"
proof -
  define a where "a = \<bar>x\<bar>"
  define e where "e = ilog2 a"
  define ulp :: rat where "ulp = 2 powi (e - 52)"
  define n where "n = round_half_even (a / ulp)"
  have "(0::rat) < 2 powi (- 1022)" by simp
  with assms(1) have apos: "0 < a" by (simp add: a_def)
  then have x0: "x \<noteq> 0" by (auto simp add: a_def)
  from ilog2_bounds [OF apos]
  have lo: "2 powi e \<le> a" and hi: "a < 2 powi (e + 1)"
    by (simp_all add: e_def)
  from assms(1) hi have "(2::rat) powi (- 1022) < 2 powi (e + 1)"
    by (simp add: a_def)
  then have emin: "- 1022 \<le> e"
    using power_int_increasing [of "e + 1" "- 1022" "2::rat"] by (cases "- 1022 \<le> e") auto
  from assms(2) lo have "(2::rat) powi e < 2 powi 1023"
    by (simp add: a_def)
  then have emax: "e \<le> 1022"
    using power_int_increasing [of 1023 e "2::rat"] by (cases "e \<le> 1022") auto
  have ulp_pos: "0 < ulp" by (simp add: ulp_def)
  have fl: "fl x = Finite (if 0 < x then of_int n * ulp else - (of_int n * ulp))"
    using x0 a_def e_def emin emax ulp_def n_def by (rule fl_unfold)
  have "\<bar>of_int n - a / ulp\<bar> \<le> 1 / 2"
    unfolding n_def by (rule round_half_even_close)
  then have "\<bar>of_int n - a / ulp\<bar> * ulp \<le> 1 / 2 * ulp"
    using ulp_pos by (intro mult_right_mono) simp_all
  moreover have "\<bar>of_int n - a / ulp\<bar> * ulp = \<bar>of_int n * ulp - a\<bar>"
    using ulp_pos by (simp add: abs_mult [symmetric] field_simps del: abs_mult)
  ultimately have close: "\<bar>of_int n * ulp - a\<bar> \<le> ulp / 2"
    by simp
  have "ulp / 2 = 2 powi e / 2 ^ 53"
    unfolding ulp_def using power_int_diff [of "2::rat" e 52] by simp
  also have "\<dots> \<le> a / 2 ^ 53"
    using lo by (intro divide_right_mono) simp_all
  finally have "\<bar>of_int n * ulp - a\<bar> \<le> a / 2 ^ 53"
    using close by simp
  then have "\<bar>(if 0 < x then of_int n * ulp else - (of_int n * ulp)) - x\<bar> \<le> \<bar>x\<bar> / 2 ^ 53"
    using x0 by (auto simp add: a_def abs_if split: if_splits)
  with fl show ?thesis by blast
qed


section \<open>Properties of the concentration calculation\<close>

lemma nearest_scaled_close:
  "\<bar>of_int (nearest_scaled f a) - a * 10 ^ f\<bar> \<le> 1 / 2"
proof -
  have "of_int \<lfloor>a * 10 ^ f + 1 / 2\<rfloor> \<le> a * 10 ^ f + 1 / 2"
    by (rule of_int_floor_le)
  moreover have "a * 10 ^ f + 1 / 2 < of_int \<lfloor>a * 10 ^ f + 1 / 2\<rfloor> + 1"
    using floor_correct [of "a * 10 ^ f + 1 / 2"] by simp
  ultimately show ?thesis
    unfolding nearest_scaled_def by linarith
qed

lemma toFixed_finite:
  "\<bar>q\<bar> < 10 ^ 21 \<Longrightarrow>
     toFixed tostr f (Finite q) = (if q < 0 then ''-'' else []) @ fixed_digits f (nearest_scaled f \<bar>q\<bar>)"
  by (simp add: toFixed_def)

lemma numbers_of_the_examples:
  "parseFloat ''0'' = Finite 0" "parseFloat ''5'' = Finite 5" "parseFloat ''10'' = Finite 10"
  "parseFloat ''100'' = Finite 100" "parseFloat ''abc'' = NaN" "parseFloat ''null'' = NaN"
  "parseFloat ''-1'' = Finite (- 1)" "parseFloat ''-5'' = Finite (- 5)"
  "parseFloat ''200'' = Finite 200" "parseFloat ''300'' = Finite 300"
  "parseFloat ''400'' = Finite 400" "parseFloat ''500'' = Finite 500"
  by code_simp+

lemma fifty:
  "toFixed integer_tostr 3 (jsmul (jsdiv (Finite 5) (Finite 10)) (Finite 100)) = ''50.000''"
  by code_simp

lemma product_error:
  assumes "0 < w" and "0 < c"
    and "1 / 10 ^ 300 \<le> \<bar>s / w\<bar>" and "\<bar>s / w\<bar> \<le> 10 ^ 300"
    and "1 / 10 ^ 300 \<le> \<bar>s / w * c\<bar>" and "\<bar>s / w * c\<bar> \<le> 10 ^ 20"
  shows "\<exists>y. jsmul (jsdiv (Finite s) (Finite w)) (Finite c) = Finite y
            \<and> \<bar>y - s / w * c\<bar> \<le> \<bar>s / w * c\<bar> / 2 ^ 51 \<and> \<bar>y\<bar> < 10 ^ 21"
proof -
  define E1 where "E1 = s / w"
  define E where "E = E1 * c"
  have tiny: "(2::rat) powi (- 1022) \<le> 1 / 10 ^ 300 / 2"
    by (simp add: power_int_minus_divide)
  have huge: "(10::rat) ^ 300 < 2 powi 1023"
    by simp
  have r1: "2 powi (- 1022) \<le> \<bar>E1\<bar>" "\<bar>E1\<bar> < 2 powi 1023"
    using assms(3,4) tiny huge by (simp_all add: E1_def)
  from fl_error [OF r1] obtain d
    where d: "fl E1 = Finite d" "\<bar>d - E1\<bar> \<le> \<bar>E1\<bar> / 2 ^ 53"
    by blast
  have div: "jsdiv (Finite s) (Finite w) = Finite d"
    using assms(1) d(1) by (simp add: E1_def)
  have absE: "\<bar>E\<bar> = \<bar>E1\<bar> * c"
    using assms(2) by (simp add: E_def abs_mult)
  have "d * c - E = (d - E1) * c"
    by (simp add: E_def algebra_simps)
  then have "\<bar>d * c - E\<bar> = \<bar>d - E1\<bar> * \<bar>c\<bar>"
    by (simp only: abs_mult)
  also have "\<dots> = \<bar>d - E1\<bar> * c"
    using assms(2) by simp
  also have "\<dots> \<le> \<bar>E1\<bar> / 2 ^ 53 * c"
    using d(2) assms(2) by (intro mult_right_mono) simp_all
  also have "\<dots> = \<bar>E\<bar> / 2 ^ 53"
    by (simp add: absE)
  finally have dc: "\<bar>d * c - E\<bar> \<le> \<bar>E\<bar> / 2 ^ 53" .
  have Elo: "1 / 10 ^ 300 \<le> \<bar>E\<bar>" and Ehi: "\<bar>E\<bar> \<le> 10 ^ 20"
    using assms(5,6) by (simp_all add: E_def E1_def)
  have frac: "\<bar>E\<bar> / 2 ^ 53 \<le> \<bar>E\<bar> / 2"
    by (intro divide_left_mono) simp_all
  have "\<bar>E\<bar> / 2 \<le> \<bar>d * c\<bar>"
    using dc frac by linarith
  moreover have "1 / 10 ^ 300 / 2 \<le> \<bar>E\<bar> / 2"
    using Elo by simp
  ultimately have r2a: "2 powi (- 1022) \<le> \<bar>d * c\<bar>"
    using tiny by linarith
  have dc_hi: "\<bar>d * c\<bar> \<le> 2 * \<bar>E\<bar>"
    using dc frac by linarith
  have "(2::rat) * 10 ^ 20 < 2 powi 1023"
    by simp
  with dc_hi Ehi have r2b: "\<bar>d * c\<bar> < 2 powi 1023"
    by linarith
  from fl_error [OF r2a r2b] obtain y
    where y: "fl (d * c) = Finite y" "\<bar>y - d * c\<bar> \<le> \<bar>d * c\<bar> / 2 ^ 53"
    by blast
  have mul: "jsmul (Finite d) (Finite c) = Finite y"
    using y(1) by simp
  have "\<bar>d * c\<bar> / 2 ^ 53 \<le> 2 * \<bar>E\<bar> / 2 ^ 53"
    using dc_hi by (intro divide_right_mono) simp_all
  with y(2) dc have "\<bar>y - E\<bar> \<le> \<bar>E\<bar> / 2 ^ 53 + 2 * \<bar>E\<bar> / 2 ^ 53"
    by linarith
  also have "\<dots> \<le> \<bar>E\<bar> / 2 ^ 51"
    by simp
  finally have err: "\<bar>y - E\<bar> \<le> \<bar>E\<bar> / 2 ^ 51" .
  have "\<bar>E\<bar> / 2 ^ 51 \<le> \<bar>E\<bar>"
    by (simp add: divide_le_eq)
  with err have "\<bar>y\<bar> \<le> 2 * \<bar>E\<bar>"
    by linarith
  moreover have "(2::rat) * 10 ^ 20 < 10 ^ 21"
    by simp
  ultimately have "\<bar>y\<bar> < 10 ^ 21"
    using Ehi by linarith
  with div mul err show ?thesis
    by (simp add: E_def E1_def)
qed

lemma calculateUVConcentrations_positive:
  assumes "jsgt (parseFloat (value_or_0 (page ''uv_weight_standard''))) (Finite 0)"
    and "jsgt (parseFloat (value_or_0 (page ''uv_final_concentration_standard''))) (Finite 0)"
    and "page ''uv_final_concentration_sample'' = Some sampleField"
  shows "calculateUVConcentrations tostr page =
     (if fld_value sampleField = []
      then page(''uv_final_concentration_sample'' \<mapsto> sampleField\<lparr>fld_value :=
             toFixed tostr 3
               (jsmul (jsdiv (parseFloat (value_or_0 (page ''uv_weight_sample'')))
                             (parseFloat (value_or_0 (page ''uv_weight_standard''))))
                      (parseFloat (value_or_0 (page ''uv_final_concentration_standard''))))\<rparr>)
      else page)"
  using assms by (simp add: calculateUVConcentrations_def Let_def)

lemma uv_page_read:
  "uv_page ws wsa c sc ''uv_weight_standard'' = Some (plain_field ws None None)"
  "uv_page ws wsa c sc ''uv_weight_sample'' = Some (plain_field wsa None None)"
  "uv_page ws wsa c sc ''uv_final_concentration_standard'' = Some (plain_field c None None)"
  "uv_page ws wsa c sc ''uv_final_concentration_sample'' = Some (plain_field sc None None)"
  "(uv_page ws wsa c sc)(''uv_final_concentration_sample'' \<mapsto>
      (plain_field sc None None)\<lparr>fld_value := written\<rparr>) = uv_page ws wsa c written"
  "value_or_0 (Some (plain_field v None None)) = (if v = [] then ''0'' else v)"
  "fld_value (plain_field v None None) = v"
  by (simp_all add: uv_page_def plain_field_def value_or_0_def)

lemma numbers_of_the_rounding_examples:
  "jsgt (parseFloat ''1'') (Finite 0)"
  "toFixed integer_tostr 3
     (jsmul (jsdiv (parseFloat ''1.0005'') (parseFloat ''1'')) (parseFloat ''1'')) = ''1.000''"
  "toFixed integer_tostr 3 (Finite (10005 / 10000 / 1 * 1)) = ''1.001''"
  "toFixed integer_tostr 3
     (jsmul (jsdiv (parseFloat ''abc'') (parseFloat ''1'')) (parseFloat ''1'')) = ''NaN''"
  "toFixed tostr 3 (Finite 0) = ''0.000''"
  by code_simp+

text \<open>
  The claim C2 as it is written fails. With the standard weight 1, the standard
  concentration 1 and the sample weight 1.0005 the field receives \<open>1.000\<close>, although
  \<open>(1.0005 / 1) * 1\<close> written with three decimals is \<open>1.001\<close>: the number the sample weight
  reads as is the double nearest to 1.0005, which lies below it. And with the sample
  weight \<open>abc\<close> the field receives the text \<open>NaN\<close>.
\<close>

theorem calculateUVConcentrations_not_the_exact_rounding:
  "calculateUVConcentrations integer_tostr (uv_page ''1'' ''1.0005'' ''1'' [])
     = uv_page ''1'' ''1.0005'' ''1'' ''1.000''
   \<and> toFixed integer_tostr 3 (Finite (10005 / 10000 / 1 * 1)) = ''1.001''
   \<and> calculateUVConcentrations integer_tostr (uv_page ''1'' ''abc'' ''1'' [])
     = uv_page ''1'' ''abc'' ''1'' ''NaN''"
proof -
  have positive: "jsgt (parseFloat (value_or_0 (uv_page ''1'' ''1.0005'' ''1'' [] ''uv_weight_standard'')))
      (Finite 0)"
    "jsgt (parseFloat (value_or_0
      (uv_page ''1'' ''1.0005'' ''1'' [] ''uv_final_concentration_standard''))) (Finite 0)"
    by (simp_all add: uv_page_read numbers_of_the_rounding_examples)
  have positive': "jsgt (parseFloat (value_or_0 (uv_page ''1'' ''abc'' ''1'' [] ''uv_weight_standard'')))
      (Finite 0)"
    "jsgt (parseFloat (value_or_0
      (uv_page ''1'' ''abc'' ''1'' [] ''uv_final_concentration_standard''))) (Finite 0)"
    by (simp_all add: uv_page_read numbers_of_the_rounding_examples)
  have "calculateUVConcentrations integer_tostr (uv_page ''1'' ''1.0005'' ''1'' [])
      = uv_page ''1'' ''1.0005'' ''1'' ''1.000''"
    using calculateUVConcentrations_positive
      [OF positive uv_page_read(4), where tostr = integer_tostr]
    by (simp add: uv_page_read numbers_of_the_rounding_examples)
  moreover have "calculateUVConcentrations integer_tostr (uv_page ''1'' ''abc'' ''1'' [])
      = uv_page ''1'' ''abc'' ''1'' ''NaN''"
    using calculateUVConcentrations_positive
      [OF positive' uv_page_read(4), where tostr = integer_tostr]
    by (simp add: uv_page_read numbers_of_the_rounding_examples)
  ultimately show ?thesis
    using numbers_of_the_rounding_examples(3) by blast
qed

text \<open>
  Claim C2, amended. When the standard weight, the standard concentration and the sample
  weight read as finite numbers \<open>w\<close>, \<open>c\<close> and \<open>s\<close> with \<open>w\<close> and \<open>c\<close> positive, and the
  sample-concentration field exists: a field that holds anything is left as it is, and
  the page with it. An empty field receives \<open>0.000\<close> when \<open>s\<close> is zero. When \<open>s / w\<close> is
  between \<open>10\<^sup>-\<^sup>3\<^sup>0\<^sup>0\<close> and \<open>10\<^sup>3\<^sup>0\<^sup>0\<close> in magnitude and \<open>(s / w) * c\<close> between \<open>10\<^sup>-\<^sup>3\<^sup>0\<^sup>0\<close> and
  \<open>10\<^sup>2\<^sup>0\<close>, an empty field receives the sign and the digits, three of them after the
  point, of the thousandth nearest to \<open>y\<close> (the upper one of two that are equally near),
  where \<open>y\<close>, the double that the code computes for \<open>(s / w) * c\<close>, differs from
  \<open>(s / w) * c\<close> by no more than a \<open>2\<^sup>5\<^sup>1\<close>st of it.
\<close>

theorem calculateUVConcentrations_writes_rounded:
  assumes w: "parseFloat (value_or_0 (page ''uv_weight_standard'')) = Finite w" and wpos: "0 < w"
    and c: "parseFloat (value_or_0 (page ''uv_final_concentration_standard'')) = Finite c"
    and cpos: "0 < c"
    and s: "parseFloat (value_or_0 (page ''uv_weight_sample'')) = Finite s"
    and field: "page ''uv_final_concentration_sample'' = Some sampleField"
  shows "(fld_value sampleField \<noteq> [] \<longrightarrow> calculateUVConcentrations tostr page = page)
       \<and> (fld_value sampleField = [] \<and> s = 0 \<longrightarrow>
            calculateUVConcentrations tostr page =
              page(''uv_final_concentration_sample'' \<mapsto> sampleField\<lparr>fld_value := ''0.000''\<rparr>))
       \<and> (fld_value sampleField = []
            \<and> 1 / 10 ^ 300 \<le> \<bar>s / w\<bar> \<and> \<bar>s / w\<bar> \<le> 10 ^ 300
            \<and> 1 / 10 ^ 300 \<le> \<bar>s / w * c\<bar> \<and> \<bar>s / w * c\<bar> \<le> 10 ^ 20 \<longrightarrow>
            (\<exists>y N. jsmul (jsdiv (Finite s) (Finite w)) (Finite c) = Finite y
              \<and> N = nearest_scaled 3 \<bar>y\<bar>
              \<and> calculateUVConcentrations tostr page =
                page(''uv_final_concentration_sample'' \<mapsto> sampleField\<lparr>fld_value :=
                  (if y < 0 then ''-'' else []) @ fixed_digits 3 N\<rparr>)
              \<and> \<bar>of_int N / 1000 - \<bar>y\<bar>\<bar> \<le> 1 / 2000
              \<and> \<bar>y - s / w * c\<bar> \<le> \<bar>s / w * c\<bar> / 2 ^ 51))"
proof -
  have positive: "jsgt (parseFloat (value_or_0 (page ''uv_weight_standard''))) (Finite 0)"
    "jsgt (parseFloat (value_or_0 (page ''uv_final_concentration_standard''))) (Finite 0)"
    using wpos cpos by (simp_all add: w c jsgt_def)
  have run: "calculateUVConcentrations tostr page =
     (if fld_value sampleField = []
      then page(''uv_final_concentration_sample'' \<mapsto> sampleField\<lparr>fld_value :=
             toFixed tostr 3 (jsmul (jsdiv (Finite s) (Finite w)) (Finite c))\<rparr>)
      else page)"
    using calculateUVConcentrations_positive [OF positive field, of tostr]
    by (simp only: w c s)
  show ?thesis
  proof (intro conjI impI)
    assume "fld_value sampleField \<noteq> []"
    then show "calculateUVConcentrations tostr page = page"
      by (simp add: run)
  next
    assume zero: "fld_value sampleField = [] \<and> s = 0"
    then have e: "fld_value sampleField = []" and z: "s = 0"
      by simp_all
    have "fl 0 = Finite 0"
      by (simp add: fl_def)
    then have "jsmul (jsdiv (Finite 0) (Finite w)) (Finite c) = Finite 0"
      using wpos by simp
    then have "toFixed tostr 3 (jsmul (jsdiv (Finite s) (Finite w)) (Finite c)) = ''0.000''"
      by (simp only: z numbers_of_the_rounding_examples(5))
    then show "calculateUVConcentrations tostr page =
        page(''uv_final_concentration_sample'' \<mapsto> sampleField\<lparr>fld_value := ''0.000''\<rparr>)"
      by (simp only: run e if_True simp_thms)
  next
    assume range: "fld_value sampleField = []
        \<and> 1 / 10 ^ 300 \<le> \<bar>s / w\<bar> \<and> \<bar>s / w\<bar> \<le> 10 ^ 300
        \<and> 1 / 10 ^ 300 \<le> \<bar>s / w * c\<bar> \<and> \<bar>s / w * c\<bar> \<le> 10 ^ 20"
    then have "\<exists>y. jsmul (jsdiv (Finite s) (Finite w)) (Finite c) = Finite y
        \<and> \<bar>y - s / w * c\<bar> \<le> \<bar>s / w * c\<bar> / 2 ^ 51 \<and> \<bar>y\<bar> < 10 ^ 21"
      using wpos cpos by (intro product_error) simp_all
    then obtain y where y: "jsmul (jsdiv (Finite s) (Finite w)) (Finite c) = Finite y"
        "\<bar>y - s / w * c\<bar> \<le> \<bar>s / w * c\<bar> / 2 ^ 51" "\<bar>y\<bar> < 10 ^ 21"
      by blast
    define N where "N = nearest_scaled 3 \<bar>y\<bar>"
    have written: "toFixed tostr 3 (jsmul (jsdiv (Finite s) (Finite w)) (Finite c))
        = (if y < 0 then ''-'' else []) @ fixed_digits 3 N"
      using toFixed_finite [OF y(3), of tostr 3] by (simp only: y(1) N_def)
    have "\<bar>of_int N - \<bar>y\<bar> * 10 ^ 3\<bar> \<le> 1 / 2"
      unfolding N_def by (rule nearest_scaled_close)
    then have "\<bar>of_int N - \<bar>y\<bar> * 1000\<bar> \<le> 1 / 2"
      by simp
    then have near: "\<bar>of_int N / 1000 - \<bar>y\<bar>\<bar> \<le> 1 / 2000"
      by linarith
    from range have e: "fld_value sampleField = []"
      by simp
    have "calculateUVConcentrations tostr page =
        page(''uv_final_concentration_sample'' \<mapsto> sampleField\<lparr>fld_value :=
          (if y < 0 then ''-'' else []) @ fixed_digits 3 N\<rparr>)"
      by (simp only: run written e if_True simp_thms)
    with near y(1,2) N_def
    show "\<exists>y N. jsmul (jsdiv (Finite s) (Finite w)) (Finite c) = Finite y
        \<and> N = nearest_scaled 3 \<bar>y\<bar>
        \<and> calculateUVConcentrations tostr page =
          page(''uv_final_concentration_sample'' \<mapsto> sampleField\<lparr>fld_value :=
            (if y < 0 then ''-'' else []) @ fixed_digits 3 N\<rparr>)
        \<and> \<bar>of_int N / 1000 - \<bar>y\<bar>\<bar> \<le> 1 / 2000
        \<and> \<bar>y - s / w * c\<bar> \<le> \<bar>s / w * c\<bar> / 2 ^ 51"
      by blast
  qed
qed

theorem calculateUVConcentrations_writes_rounded_witness:
  "calculateUVConcentrations integer_tostr (uv_page ''10'' ''5'' ''100'' [])
     = uv_page ''10'' ''5'' ''100'' ''50.000''
   \<and> calculateUVConcentrations integer_tostr (uv_page ''10'' ''5'' ''100'' ''42'')
     = uv_page ''10'' ''5'' ''100'' ''42''
   \<and> calculateUVConcentrations integer_tostr (uv_page ''10'' [] ''100'' [])
     = uv_page ''10'' [] ''100'' ''0.000''
   \<and> (\<exists>y N. calculateUVConcentrations integer_tostr (uv_page ''10'' ''5'' ''100'' [])
          = uv_page ''10'' ''5'' ''100'' ((if y < 0 then ''-'' else []) @ fixed_digits 3 N)
        \<and> \<bar>of_int N / 1000 - \<bar>y\<bar>\<bar> \<le> (1 / 2000 :: rat)
        \<and> \<bar>y - 50\<bar> \<le> 50 / 2 ^ 51)"
proof -
  have w: "parseFloat (value_or_0 (uv_page ''10'' wsa ''100'' sc ''uv_weight_standard'')) = Finite 10"
    and c: "parseFloat (value_or_0 (uv_page ''10'' wsa ''100'' sc ''uv_final_concentration_standard''))
      = Finite 100" for wsa sc
    by (simp_all add: uv_page_read numbers_of_the_examples)
  have five: "parseFloat (value_or_0 (uv_page ''10'' ''5'' ''100'' sc ''uv_weight_sample'')) = Finite 5"
    for sc
    by (simp add: uv_page_read numbers_of_the_examples)
  have none: "parseFloat (value_or_0 (uv_page ''10'' [] ''100'' [] ''uv_weight_sample'')) = Finite 0"
    by (simp add: uv_page_read numbers_of_the_examples)
  have positive: "(0::rat) < 10" "(0::rat) < 100"
    by simp_all
  note empty = calculateUVConcentrations_writes_rounded
    [where page = "uv_page ''10'' ''5'' ''100'' []" and tostr = integer_tostr,
      OF w positive(1) c positive(2) five uv_page_read(4)]
  note manual = calculateUVConcentrations_writes_rounded
    [where page = "uv_page ''10'' ''5'' ''100'' ''42''" and tostr = integer_tostr,
      OF w positive(1) c positive(2) five uv_page_read(4)]
  note blank = calculateUVConcentrations_writes_rounded
    [where page = "uv_page ''10'' [] ''100'' []" and tostr = integer_tostr,
      OF w positive(1) c positive(2) none uv_page_read(4)]
  have range: "fld_value (plain_field [] None None) = []
      \<and> 1 / 10 ^ 300 \<le> \<bar>5 / 10 :: rat\<bar> \<and> \<bar>5 / 10 :: rat\<bar> \<le> 10 ^ 300
      \<and> 1 / 10 ^ 300 \<le> \<bar>5 / 10 * 100 :: rat\<bar> \<and> \<bar>5 / 10 * 100 :: rat\<bar> \<le> 10 ^ 20"
    by (simp add: uv_page_read)
  from empty range obtain y :: rat and N
    where written: "calculateUVConcentrations integer_tostr (uv_page ''10'' ''5'' ''100'' []) =
        (uv_page ''10'' ''5'' ''100'' [])(''uv_final_concentration_sample'' \<mapsto>
          (plain_field [] None None)\<lparr>fld_value :=
            (if y < 0 then ''-'' else []) @ fixed_digits 3 N\<rparr>)"
      and near: "\<bar>of_int N / 1000 - \<bar>y\<bar>\<bar> \<le> 1 / 2000"
        "\<bar>y - 5 / 10 * 100\<bar> \<le> \<bar>5 / 10 * 100\<bar> / 2 ^ 51"
    by blast
  have "calculateUVConcentrations integer_tostr (uv_page ''10'' ''5'' ''100'' [])
        = uv_page ''10'' ''5'' ''100'' ((if y < 0 then ''-'' else []) @ fixed_digits 3 N)
      \<and> \<bar>of_int N / 1000 - \<bar>y\<bar>\<bar> \<le> (1 / 2000 :: rat)
      \<and> \<bar>y - 50\<bar> \<le> 50 / 2 ^ 51"
    using near by (simp only: written uv_page_read(5)) simp
  then have nearest: "\<exists>y N. calculateUVConcentrations integer_tostr (uv_page ''10'' ''5'' ''100'' [])
        = uv_page ''10'' ''5'' ''100'' ((if y < 0 then ''-'' else []) @ fixed_digits 3 N)
      \<and> \<bar>of_int N / 1000 - \<bar>y\<bar>\<bar> \<le> (1 / 2000 :: rat)
      \<and> \<bar>y - 50\<bar> \<le> 50 / 2 ^ 51"
    by blast
  have second: "calculateUVConcentrations integer_tostr (uv_page ''10'' ''5'' ''100'' ''42'')
      = uv_page ''10'' ''5'' ''100'' ''42''"
    using manual by (simp add: uv_page_read)
  have third: "calculateUVConcentrations integer_tostr (uv_page ''10'' [] ''100'' [])
      = uv_page ''10'' [] ''100'' ''0.000''"
    using blank by (simp add: uv_page_read)
  have greater: "jsgt (parseFloat (value_or_0 (uv_page ''10'' ''5'' ''100'' [] ''uv_weight_standard'')))
      (Finite 0)"
    "jsgt (parseFloat (value_or_0
      (uv_page ''10'' ''5'' ''100'' [] ''uv_final_concentration_standard''))) (Finite 0)"
    by (simp_all add: w c jsgt_def)
  have first: "calculateUVConcentrations integer_tostr (uv_page ''10'' ''5'' ''100'' [])
      = uv_page ''10'' ''5'' ''100'' ''50.000''"
    using calculateUVConcentrations_positive
      [OF greater uv_page_read(4), where tostr = integer_tostr]
    by (simp only: w c five fifty uv_page_read(5,7) if_True simp_thms)
  from first second third nearest show ?thesis
    by blast
qed

text \<open>
  Claim C10. When the standard weight or the standard concentration does not read as a
  number greater than zero, neither \<open>calculateUVConcentrations\<close> nor
  \<open>calculateHPLCConcentrations\<close> changes the page, so the division, which only a change
  of the page can show, has a positive divisor whenever it is made. A missing or empty
  control reads as zero and a text that is no number reads as NaN; neither is greater
  than zero.
\<close>

theorem concentrations_guarded:
  "(\<not> jsgt (parseFloat (value_or_0 (page ''uv_weight_standard''))) (Finite 0)
      \<or> \<not> jsgt (parseFloat (value_or_0 (page ''uv_final_concentration_standard''))) (Finite 0)
      \<longrightarrow> calculateUVConcentrations tostr page = page)
   \<and> (\<not> jsgt (parseFloat (value_or_0 (page ''hplc_weight_standard''))) (Finite 0)
      \<or> \<not> jsgt (parseFloat (value_or_0 (page ''hplc_final_concentration_standard''))) (Finite 0)
      \<longrightarrow> calculateHPLCConcentrations tostr page = page)
   \<and> value_or_0 None = ''0''
   \<and> (fld_value f = [] \<longrightarrow> value_or_0 (Some f) = ''0'')
   \<and> \<not> jsgt (parseFloat ''0'') (Finite 0)
   \<and> \<not> jsgt NaN (Finite 0)"
proof (intro conjI impI)
  assume "\<not> jsgt (parseFloat (value_or_0 (page ''uv_weight_standard''))) (Finite 0)
      \<or> \<not> jsgt (parseFloat (value_or_0 (page ''uv_final_concentration_standard''))) (Finite 0)"
  then show "calculateUVConcentrations tostr page = page"
    by (auto simp add: calculateUVConcentrations_def Let_def)
next
  assume "\<not> jsgt (parseFloat (value_or_0 (page ''hplc_weight_standard''))) (Finite 0)
      \<or> \<not> jsgt (parseFloat (value_or_0 (page ''hplc_final_concentration_standard''))) (Finite 0)"
  then show "calculateHPLCConcentrations tostr page = page"
    by (auto simp add: calculateHPLCConcentrations_def Let_def)
next
  show "value_or_0 None = ''0''"
    by (simp add: value_or_0_def)
next
  assume "fld_value f = []"
  then show "value_or_0 (Some f) = ''0''"
    by (simp add: value_or_0_def)
next
  show "\<not> jsgt (parseFloat ''0'') (Finite 0)"
    by (simp add: numbers_of_the_examples jsgt_def)
next
  show "\<not> jsgt NaN (Finite 0)"
    by (simp add: jsgt_def)
qed

theorem concentrations_guarded_witness:
  "calculateUVConcentrations integer_tostr (uv_page ''0'' ''5'' ''100'' [])
     = uv_page ''0'' ''5'' ''100'' []
   \<and> calculateUVConcentrations integer_tostr (uv_page [] ''5'' ''100'' [])
     = uv_page [] ''5'' ''100'' []
   \<and> calculateUVConcentrations integer_tostr (uv_page ''abc'' ''5'' ''100'' [])
     = uv_page ''abc'' ''5'' ''100'' []
   \<and> calculateUVConcentrations integer_tostr (uv_page ''10'' ''5'' ''-1'' [])
     = uv_page ''10'' ''5'' ''-1'' []
   \<and> calculateHPLCConcentrations integer_tostr (hplc_page ''0'' ''5'' ''100'' [])
     = hplc_page ''0'' ''5'' ''100'' []
   \<and> calculateHPLCConcentrations integer_tostr (hplc_page ''10'' ''5'' ''abc'' [])
     = hplc_page ''10'' ''5'' ''abc'' []"
proof -
  have uv: "\<not> jsgt (parseFloat (value_or_0 (uv_page ''0'' ''5'' ''100'' [] ''uv_weight_standard''))) (Finite 0)"
    "\<not> jsgt (parseFloat (value_or_0 (uv_page [] ''5'' ''100'' [] ''uv_weight_standard''))) (Finite 0)"
    "\<not> jsgt (parseFloat (value_or_0 (uv_page ''abc'' ''5'' ''100'' [] ''uv_weight_standard''))) (Finite 0)"
    "\<not> jsgt (parseFloat (value_or_0
        (uv_page ''10'' ''5'' ''-1'' [] ''uv_final_concentration_standard''))) (Finite 0)"
    by (simp_all add: uv_page_def value_or_0_def plain_field_def numbers_of_the_examples jsgt_def)
  have hplc: "\<not> jsgt (parseFloat (value_or_0
        (hplc_page ''0'' ''5'' ''100'' [] ''hplc_weight_standard''))) (Finite 0)"
    "\<not> jsgt (parseFloat (value_or_0
        (hplc_page ''10'' ''5'' ''abc'' [] ''hplc_final_concentration_standard''))) (Finite 0)"
    by (simp_all add: hplc_page_def value_or_0_def plain_field_def numbers_of_the_examples jsgt_def)
  show ?thesis
    using uv hplc
      concentrations_guarded [of "uv_page ''0'' ''5'' ''100'' []" integer_tostr]
      concentrations_guarded [of "uv_page [] ''5'' ''100'' []" integer_tostr]
      concentrations_guarded [of "uv_page ''abc'' ''5'' ''100'' []" integer_tostr]
      concentrations_guarded [of "uv_page ''10'' ''5'' ''-1'' []" integer_tostr]
      concentrations_guarded [of "hplc_page ''0'' ''5'' ''100'' []" integer_tostr]
      concentrations_guarded [of "hplc_page ''10'' ''5'' ''abc'' []" integer_tostr]
    by blast
qed


section \<open>Properties of the wavelength check\<close>

lemma trim_Nil_iff:
  "trim s = [] \<longleftrightarrow> dropWhile isWhiteSpace s = []"
proof
  assume blank: "trim s = []"
  show "dropWhile isWhiteSpace s = []"
  proof (rule ccontr)
    assume rest: "dropWhile isWhiteSpace s \<noteq> []"
    then have "\<not> isWhiteSpace (hd (dropWhile isWhiteSpace s))"
      by (rule hd_dropWhile)
    moreover from blank have "dropWhile isWhiteSpace (rev (dropWhile isWhiteSpace s)) = []"
      by (simp only: trim_def rev_is_Nil_conv)
    then have "\<forall>c \<in> set (dropWhile isWhiteSpace s). isWhiteSpace c"
      by (simp only: dropWhile_eq_Nil_conv set_rev)
    moreover from rest have "hd (dropWhile isWhiteSpace s) \<in> set (dropWhile isWhiteSpace s)"
      by (rule hd_in_set)
    ultimately show False by blast
  qed
next
  assume "dropWhile isWhiteSpace s = []"
  then show "trim s = []"
    by (simp only: trim_def rev.simps dropWhile.simps)
qed

lemma parseFloat_blank:
  assumes "trim s = []"
  shows "parseFloat s = NaN"
proof -
  from assms have "dropWhile isWhiteSpace s = []"
    by (simp only: trim_Nil_iff)
  then show ?thesis
    by (simp only: parseFloat_def list.case)
qed

lemma validateWavelengthField_blank:
  "trim (fld_value f) = [] \<Longrightarrow> validateWavelengthField tostr (Some f) = (True, Some f)"
  by (simp add: validateWavelengthField_def Let_def)

lemma validateWavelengthField_numeric:
  assumes "field_number f \<noteq> NaN"
  shows "validateWavelengthField tostr (Some f) =
     (if truthy (field_lower f) \<and> jslt (field_number f) (field_lower f)
      then (False, Some (showFieldError f (''Value must be at least '' @ tostr (field_lower f))))
      else if truthy (field_upper f) \<and> jsgt (field_number f) (field_upper f)
      then (False, Some (showFieldError f (''Value must be no more than '' @ tostr (field_upper f))))
      else (True, Some (clearFieldError f)))"
proof -
  from assms have "trim (fld_value f) \<noteq> []"
    using parseFloat_blank by blast
  with assms show ?thesis
    by (simp add: validateWavelengthField_def Let_def isNaN_def)
qed

lemma truthy_iff:
  "truthy y \<longleftrightarrow> y \<noteq> NaN \<and> y \<noteq> Finite 0"
  by (cases y) simp_all

text \<open>
  Claim C5. A number below the declared minimum of a wavelength field is to be invalid.
  For the field with \<open>min="0"\<close>, \<open>max="400"\<close> and the value \<open>-5\<close> the value reads as the
  number -5, the minimum as 0 and the maximum as 400, and \<open>validateWavelengthField\<close>
  returns true: the guard \<open>min && value < min\<close> takes the minimum 0 for no minimum.
\<close>

theorem validateWavelengthField_zero_minimum:
  "field_number (plain_field ''-5'' (Some ''0'') (Some ''400'')) = Finite (- 5)
   \<and> field_lower (plain_field ''-5'' (Some ''0'') (Some ''400'')) = Finite 0
   \<and> field_upper (plain_field ''-5'' (Some ''0'') (Some ''400'')) = Finite 400
   \<and> fst (validateWavelengthField integer_tostr (Some (plain_field ''-5'' (Some ''0'') (Some ''400''))))"
proof -
  have n: "field_number (plain_field ''-5'' (Some ''0'') (Some ''400'')) = Finite (- 5)"
    by (simp add: plain_field_def numbers_of_the_examples)
  have lo: "field_lower (plain_field ''-5'' (Some ''0'') (Some ''400'')) = Finite 0"
    by (simp add: plain_field_def parseFloat_attribute_def numbers_of_the_examples)
  have hi: "field_upper (plain_field ''-5'' (Some ''0'') (Some ''400'')) = Finite 400"
    by (simp add: plain_field_def parseFloat_attribute_def numbers_of_the_examples)
  have "field_number (plain_field ''-5'' (Some ''0'') (Some ''400'')) \<noteq> NaN"
    by (simp only: n) simp
  from validateWavelengthField_numeric [OF this, of integer_tostr]
  have "fst (validateWavelengthField integer_tostr
      (Some (plain_field ''-5'' (Some ''0'') (Some ''400''))))"
    by (simp add: n lo hi jsgt_def)
  with n lo hi show ?thesis by blast
qed

text \<open>
  What the check does with the bounds it does enforce: a value that is empty or only
  white space is valid and the field is left as it is; a value that does not read as a
  number is invalid with the message \<open>Please enter a valid number\<close>; a number above a
  maximum that is a number other than zero is invalid; a number below a minimum that is
  a number other than zero is invalid; a number that lies between the minimum and the
  maximum is valid.
\<close>

lemma validateWavelengthField_range:
  "(trim (fld_value f) = [] \<longrightarrow> validateWavelengthField tostr (Some f) = (True, Some f))
   \<and> (trim (fld_value f) \<noteq> [] \<and> field_number f = NaN \<longrightarrow>
        validateWavelengthField tostr (Some f)
          = (False, Some (showFieldError f ''Please enter a valid number'')))
   \<and> (field_number f = Finite x \<and> field_upper f = Finite b \<and> b \<noteq> 0 \<and> b < x \<longrightarrow>
        \<not> fst (validateWavelengthField tostr (Some f)))
   \<and> (field_number f = Finite x \<and> field_lower f = Finite a \<and> a \<noteq> 0 \<and> x < a \<longrightarrow>
        \<not> fst (validateWavelengthField tostr (Some f)))
   \<and> (field_number f = Finite x \<and> field_lower f = Finite a \<and> field_upper f = Finite b
        \<and> a \<le> x \<and> x \<le> b \<longrightarrow>
        validateWavelengthField tostr (Some f) = (True, Some (clearFieldError f)))"
proof (intro conjI impI)
  assume "trim (fld_value f) = []"
  then show "validateWavelengthField tostr (Some f) = (True, Some f)"
    by (rule validateWavelengthField_blank)
next
  assume "trim (fld_value f) \<noteq> [] \<and> field_number f = NaN"
  then show "validateWavelengthField tostr (Some f)
      = (False, Some (showFieldError f ''Please enter a valid number''))"
    by (simp add: validateWavelengthField_def Let_def isNaN_def)
next
  assume h: "field_number f = Finite x \<and> field_upper f = Finite b \<and> b \<noteq> 0 \<and> b < x"
  then have "field_number f \<noteq> NaN" by simp
  from validateWavelengthField_numeric [OF this, of tostr] h
  show "\<not> fst (validateWavelengthField tostr (Some f))"
    by (simp add: jsgt_def)
next
  assume h: "field_number f = Finite x \<and> field_lower f = Finite a \<and> a \<noteq> 0 \<and> x < a"
  then have "field_number f \<noteq> NaN" by simp
  from validateWavelengthField_numeric [OF this, of tostr] h
  show "\<not> fst (validateWavelengthField tostr (Some f))"
    by simp
next
  assume h: "field_number f = Finite x \<and> field_lower f = Finite a \<and> field_upper f = Finite b
      \<and> a \<le> x \<and> x \<le> b"
  then have "field_number f \<noteq> NaN" by simp
  from validateWavelengthField_numeric [OF this, of tostr] h
  show "validateWavelengthField tostr (Some f) = (True, Some (clearFieldError f))"
    by (simp add: jsgt_def)
qed

lemma example_fields:
  "fld_value (plain_field v lo hi) = v"
  "field_lower (plain_field v (Some l) hi) = parseFloat l"
  "field_upper (plain_field v lo (Some h)) = parseFloat h"
  "field_lower (plain_field v None hi) = NaN"
  "field_upper (plain_field v lo None) = NaN"
  by (simp_all add: plain_field_def parseFloat_attribute_def numbers_of_the_examples)

lemma validateWavelengthField_range_examples:
  "validateWavelengthField integer_tostr (Some (plain_field [] (Some ''200'') (Some ''400'')))
     = (True, Some (plain_field [] (Some ''200'') (Some ''400'')))
   \<and> validateWavelengthField integer_tostr (Some (plain_field ''abc'' (Some ''200'') (Some ''400'')))
     = (False, Some (showFieldError (plain_field ''abc'' (Some ''200'') (Some ''400''))
          ''Please enter a valid number''))
   \<and> \<not> fst (validateWavelengthField integer_tostr (Some (plain_field ''500'' None (Some ''400''))))
   \<and> \<not> fst (validateWavelengthField integer_tostr (Some (plain_field ''100'' (Some ''200'') None)))
   \<and> fst (validateWavelengthField integer_tostr
        (Some (plain_field ''300'' (Some ''200'') (Some ''400''))))"
proof -
  have blank: "trim (fld_value (plain_field [] (Some ''200'') (Some ''400''))) = []"
    by (simp add: example_fields trim_def)
  have letters: "trim (fld_value (plain_field ''abc'' (Some ''200'') (Some ''400''))) \<noteq> []"
    by (simp add: example_fields trim_def isWhiteSpace_def)
  show ?thesis
    using blank letters
      validateWavelengthField_range
        [of "plain_field [] (Some ''200'') (Some ''400'')" integer_tostr]
      validateWavelengthField_range
        [of "plain_field ''abc'' (Some ''200'') (Some ''400'')" integer_tostr]
      validateWavelengthField_range
        [of "plain_field ''500'' None (Some ''400'')" integer_tostr 500 400]
      validateWavelengthField_range
        [of "plain_field ''100'' (Some ''200'') None" integer_tostr 100 _ 200]
      validateWavelengthField_range
        [of "plain_field ''300'' (Some ''200'') (Some ''400'')" integer_tostr 300 400 200]
    by (simp add: example_fields numbers_of_the_examples)
qed

text \<open>
  Claim C9. A bound that reads as zero or as NaN, which is what a missing attribute and
  the attribute \<open>0\<close> give, is not enforced: with such a minimum the verdict on a number
  is that of the maximum alone, so negative numbers pass the lower end, and with such a
  maximum the verdict is that of the minimum alone. A bound that is a number other than
  zero is enforced.
\<close>

theorem validateWavelengthField_falsy_bound:
  "(field_number f \<noteq> NaN \<and> \<not> truthy (field_lower f) \<longrightarrow>
      fst (validateWavelengthField tostr (Some f))
        = (\<not> (truthy (field_upper f) \<and> jsgt (field_number f) (field_upper f))))
   \<and> (field_number f \<noteq> NaN \<and> \<not> truthy (field_upper f) \<longrightarrow>
      fst (validateWavelengthField tostr (Some f))
        = (\<not> (truthy (field_lower f) \<and> jslt (field_number f) (field_lower f))))
   \<and> (field_number f \<noteq> NaN \<and> truthy (field_lower f) \<and> jslt (field_number f) (field_lower f)
        \<longrightarrow> \<not> fst (validateWavelengthField tostr (Some f)))
   \<and> (field_number f \<noteq> NaN \<and> truthy (field_upper f) \<and> jsgt (field_number f) (field_upper f)
        \<longrightarrow> \<not> fst (validateWavelengthField tostr (Some f)))
   \<and> (fld_min f = None \<or> fld_min f = Some ''0'' \<longrightarrow> \<not> truthy (field_lower f))
   \<and> (fld_max f = None \<or> fld_max f = Some ''0'' \<longrightarrow> \<not> truthy (field_upper f))
   \<and> (truthy y \<longleftrightarrow> y \<noteq> NaN \<and> y \<noteq> Finite 0)"
proof (intro conjI impI)
  assume h: "field_number f \<noteq> NaN \<and> \<not> truthy (field_lower f)"
  then have "field_number f \<noteq> NaN" by simp
  from validateWavelengthField_numeric [OF this, of tostr] h
  show "fst (validateWavelengthField tostr (Some f))
      = (\<not> (truthy (field_upper f) \<and> jsgt (field_number f) (field_upper f)))"
    by simp
next
  assume h: "field_number f \<noteq> NaN \<and> \<not> truthy (field_upper f)"
  then have "field_number f \<noteq> NaN" by simp
  from validateWavelengthField_numeric [OF this, of tostr] h
  show "fst (validateWavelengthField tostr (Some f))
      = (\<not> (truthy (field_lower f) \<and> jslt (field_number f) (field_lower f)))"
    by simp
next
  assume h: "field_number f \<noteq> NaN \<and> truthy (field_lower f)
      \<and> jslt (field_number f) (field_lower f)"
  then have "field_number f \<noteq> NaN" by simp
  from validateWavelengthField_numeric [OF this, of tostr] h
  show "\<not> fst (validateWavelengthField tostr (Some f))"
    by simp
next
  assume h: "field_number f \<noteq> NaN \<and> truthy (field_upper f)
      \<and> jsgt (field_number f) (field_upper f)"
  then have "field_number f \<noteq> NaN" by simp
  from validateWavelengthField_numeric [OF this, of tostr] h
  show "\<not> fst (validateWavelengthField tostr (Some f))"
    by simp
next
  assume "fld_min f = None \<or> fld_min f = Some ''0''"
  then show "\<not> truthy (field_lower f)"
    by (auto simp add: parseFloat_attribute_def numbers_of_the_examples)
next
  assume "fld_max f = None \<or> fld_max f = Some ''0''"
  then show "\<not> truthy (field_upper f)"
    by (auto simp add: parseFloat_attribute_def numbers_of_the_examples)
next
  show "truthy y \<longleftrightarrow> y \<noteq> NaN \<and> y \<noteq> Finite 0"
    by (rule truthy_iff)
qed

theorem validateWavelengthField_falsy_bound_witness:
  "fst (validateWavelengthField integer_tostr (Some (plain_field ''-5'' (Some ''0'') (Some ''400''))))
   \<and> fst (validateWavelengthField integer_tostr (Some (plain_field ''-5'' None (Some ''400''))))
   \<and> fst (validateWavelengthField integer_tostr (Some (plain_field ''500'' (Some ''200'') (Some ''0''))))
   \<and> fst (validateWavelengthField integer_tostr (Some (plain_field ''500'' (Some ''200'') None)))
   \<and> \<not> fst (validateWavelengthField integer_tostr (Some (plain_field ''100'' (Some ''200'') None)))
   \<and> \<not> fst (validateWavelengthField integer_tostr (Some (plain_field ''500'' None (Some ''400''))))"
  using
    validateWavelengthField_falsy_bound
      [of "plain_field ''-5'' (Some ''0'') (Some ''400'')" integer_tostr]
    validateWavelengthField_falsy_bound
      [of "plain_field ''-5'' None (Some ''400'')" integer_tostr]
    validateWavelengthField_falsy_bound
      [of "plain_field ''500'' (Some ''200'') (Some ''0'')" integer_tostr]
    validateWavelengthField_falsy_bound
      [of "plain_field ''500'' (Some ''200'') None" integer_tostr]
    validateWavelengthField_falsy_bound
      [of "plain_field ''100'' (Some ''200'') None" integer_tostr]
    validateWavelengthField_falsy_bound
      [of "plain_field ''500'' None (Some ''400'')" integer_tostr]
  by (simp add: example_fields numbers_of_the_examples jsgt_def)


section \<open>Properties of the automatic selection\<close>

lemma values_check_first:
  "map cb_value (check_first v cs) = map cb_value cs"
  by (induction cs) simp_all

lemma checked_values_Nil:
  "checked_values [] = {}"
  by (simp add: checked_values_def)

lemma checked_values_Cons:
  "checked_values (c # cs) = (if cb_checked c then {cb_value c} else {}) \<union> checked_values cs"
  by (simp add: checked_values_def)

lemma checked_check_first:
  "checked_values (check_first v cs) = checked_values cs \<union> ({v} \<inter> set (map cb_value cs))"
  by (induction cs) (auto simp add: checked_values_Nil checked_values_Cons)

lemma values_fold_check_first:
  "map cb_value (fold check_first ps cs) = map cb_value cs"
  by (induction ps arbitrary: cs) (simp_all add: values_check_first)

lemma checked_fold_check_first:
  "checked_values (fold check_first ps cs) = checked_values cs \<union> (set ps \<inter> set (map cb_value cs))"
proof (induction ps arbitrary: cs)
  case Nil
  then show ?case by simp
next
  case (Cons p ps)
  have "checked_values (fold check_first (p # ps) cs)
      = checked_values (check_first p cs) \<union> (set ps \<inter> set (map cb_value (check_first p cs)))"
    using Cons.IH [of "check_first p cs"] by simp
  also have "\<dots> = (checked_values cs \<union> ({p} \<inter> set (map cb_value cs)))
      \<union> (set ps \<inter> set (map cb_value cs))"
    by (simp only: checked_check_first values_check_first)
  also have "\<dots> = checked_values cs \<union> (set (p # ps) \<inter> set (map cb_value cs))"
    by auto
  finally show ?case .
qed

lemma checked_values_unchecked:
  "checked_values (map (\<lambda>c. c\<lparr>cb_checked := False\<rparr>) cs) = {}"
  by (induction cs) (simp_all add: checked_values_Nil checked_values_Cons)

lemma values_unchecked:
  "map cb_value (map (\<lambda>c. c\<lparr>cb_checked := False\<rparr>) cs) = map cb_value cs"
  by (induction cs) simp_all

lemma validationParameters_table:
  "map_of validationParameters t = Some ps \<Longrightarrow> ps = standard_parameters"
  by (simp add: validationParameters_def split: if_splits)

lemma autoSelectValidationParameters_known:
  assumes "map_of validationParameters t = Some ps"
  shows "autoSelectValidationParameters t boxes
     = (None, fold check_first ps (map (\<lambda>c. c\<lparr>cb_checked := False\<rparr>) boxes))"
proof -
  from assms have "ps = standard_parameters"
    by (rule validationParameters_table)
  then have "length ps > 0"
    by (simp add: standard_parameters_def)
  with assms show ?thesis
    by (simp add: autoSelectValidationParameters_def validationParameters_at_def)
qed

lemma autoSelectValidationParameters_checked:
  assumes "map_of validationParameters t = Some ps"
  shows "checked_values (snd (autoSelectValidationParameters t boxes))
     = set ps \<inter> set (map cb_value boxes)"
  by (simp only: autoSelectValidationParameters_known [OF assms] snd_conv
      checked_fold_check_first checked_values_unchecked values_unchecked) simp

lemma autoSelectValidationParameters_other_names:
  "autoSelectValidationParameters ''constructor'' example_boxes
     = (Some TypeError, map (\<lambda>c. c\<lparr>cb_checked := False\<rparr>) example_boxes)"
  "autoSelectValidationParameters ''toString'' example_boxes = (None, example_boxes)"
  "autoSelectValidationParameters ''__proto__'' example_boxes = (None, example_boxes)"
  "autoSelectValidationParameters ''ir'' example_boxes = (None, example_boxes)"
  by (simp_all add: autoSelectValidationParameters_def validationParameters_at_def
      validationParameters_def object_prototype_functions_def)

text \<open>
  Claim C6. The instrument types are the six keys of the table (\<open>uv\<close>, \<open>aas\<close>, \<open>hplc\<close>,
  \<open>uplc\<close>, \<open>gc\<close>, \<open>titration\<close>). For each of them and every prior state of the boxes,
  \<open>autoSelectValidationParameters\<close> returns without an exception and the values checked
  afterwards are the listed parameters that the page has a box for, so exactly the list
  when the page has a box for every listed parameter; two prior states of the same boxes
  give the same checked values, so nothing of the prior selection is kept.
\<close>

theorem autoSelectValidationParameters_replaces:
  "(map_of validationParameters t = Some ps \<longrightarrow>
      fst (autoSelectValidationParameters t boxes) = None
      \<and> checked_values (snd (autoSelectValidationParameters t boxes))
          = set ps \<inter> set (map cb_value boxes))
   \<and> (map_of validationParameters t = Some ps \<and> set ps \<subseteq> set (map cb_value boxes) \<longrightarrow>
      checked_values (snd (autoSelectValidationParameters t boxes)) = set ps)
   \<and> (map_of validationParameters t = Some ps \<and> map cb_value boxes' = map cb_value boxes \<longrightarrow>
      checked_values (snd (autoSelectValidationParameters t boxes'))
        = checked_values (snd (autoSelectValidationParameters t boxes)))
   \<and> (t \<in> set [''uv'', ''aas'', ''hplc'', ''uplc'', ''gc'', ''titration'']
        \<longleftrightarrow> map_of validationParameters t = Some standard_parameters)"
proof (intro conjI impI)
  assume h: "map_of validationParameters t = Some ps"
  then show "fst (autoSelectValidationParameters t boxes) = None"
    by (simp only: autoSelectValidationParameters_known fst_conv)
  from h show "checked_values (snd (autoSelectValidationParameters t boxes))
      = set ps \<inter> set (map cb_value boxes)"
    by (rule autoSelectValidationParameters_checked)
next
  assume h: "map_of validationParameters t = Some ps \<and> set ps \<subseteq> set (map cb_value boxes)"
  then have "checked_values (snd (autoSelectValidationParameters t boxes))
      = set ps \<inter> set (map cb_value boxes)"
    by (simp only: autoSelectValidationParameters_checked)
  with h show "checked_values (snd (autoSelectValidationParameters t boxes)) = set ps"
    by blast
next
  assume h: "map_of validationParameters t = Some ps \<and> map cb_value boxes' = map cb_value boxes"
  then show "checked_values (snd (autoSelectValidationParameters t boxes'))
      = checked_values (snd (autoSelectValidationParameters t boxes))"
    by (simp only: autoSelectValidationParameters_checked)
next
  show "t \<in> set [''uv'', ''aas'', ''hplc'', ''uplc'', ''gc'', ''titration'']
      \<longleftrightarrow> map_of validationParameters t = Some standard_parameters"
    by (simp add: validationParameters_def)
qed

theorem autoSelectValidationParameters_replaces_witness:
  "fst (autoSelectValidationParameters ''hplc'' example_boxes) = None
   \<and> checked_values (snd (autoSelectValidationParameters ''hplc'' example_boxes))
       = set standard_parameters
   \<and> checked_values (snd (autoSelectValidationParameters ''hplc''
        (map (\<lambda>c. c\<lparr>cb_checked := False\<rparr>) example_boxes))) = set standard_parameters
   \<and> ''accuracy'' \<in> checked_values example_boxes
   \<and> ''accuracy'' \<notin> set standard_parameters"
proof -
  have listed: "map_of validationParameters ''hplc'' = Some standard_parameters"
    by (simp add: validationParameters_def)
  have offered: "set standard_parameters \<subseteq> set (map cb_value example_boxes)"
    by (auto simp add: example_boxes_def)
  have offered': "set standard_parameters
      \<subseteq> set (map cb_value (map (\<lambda>c. c\<lparr>cb_checked := False\<rparr>) example_boxes))"
    using offered by (simp only: values_unchecked)
  from autoSelectValidationParameters_replaces
    [of "''hplc''" standard_parameters example_boxes example_boxes] listed offered
  have first: "fst (autoSelectValidationParameters ''hplc'' example_boxes) = None
      \<and> checked_values (snd (autoSelectValidationParameters ''hplc'' example_boxes))
          = set standard_parameters"
    by blast
  from autoSelectValidationParameters_replaces
    [of "''hplc''" standard_parameters "map (\<lambda>c. c\<lparr>cb_checked := False\<rparr>) example_boxes"
      example_boxes] listed offered'
  have second: "checked_values (snd (autoSelectValidationParameters ''hplc''
      (map (\<lambda>c. c\<lparr>cb_checked := False\<rparr>) example_boxes))) = set standard_parameters"
    by blast
  have prior: "''accuracy'' \<in> checked_values example_boxes"
    by (simp add: example_boxes_def checked_values_Cons)
  have other: "''accuracy'' \<notin> set standard_parameters"
    by (simp add: standard_parameters_def)
  from first second prior other show ?thesis by blast
qed

section \<open>Properties of the percentage labels\<close>

lemma shares_of_the_example:
  "tooltip_percentage integer_tostr (Finite 3) [Finite 3, Finite 1] = ''75.0''"
  "tooltip_percentage integer_tostr (Finite 1) [Finite 3, Finite 1] = ''25.0''"
  "integer_tostr (Finite 3) = ''3''"
  by code_simp+

lemma sum_of_counts:
  assumes "\<forall>n \<in> set ns. 0 \<le> n" and "0 \<le> a" and "a + sum_list ns < 2 ^ 53"
  shows "foldl jsadd (Finite (of_int a)) (map (\<lambda>n. Finite (of_int n)) ns)
     = Finite (of_int (a + sum_list ns))"
  using assms
proof (induction ns arbitrary: a)
  case Nil
  then show ?case by simp
next
  case (Cons n ns)
  have rest: "0 \<le> sum_list ns"
    using Cons.prems(1) by (simp add: sum_list_nonneg)
  have n: "0 \<le> n"
    using Cons.prems(1) by simp
  have "\<bar>a + n\<bar> < 2 ^ 53"
    using Cons.prems(2,3) rest n by simp
  then have "fl (of_int (a + n)) = Finite (of_int (a + n))"
    by (rule fl_of_int)
  then have step: "jsadd (Finite (of_int a)) (Finite (of_int n)) = Finite (of_int (a + n))"
    by simp
  have "foldl jsadd (Finite (of_int (a + n))) (map (\<lambda>n. Finite (of_int n)) ns)
      = Finite (of_int ((a + n) + sum_list ns))"
    using Cons.prems n by (intro Cons.IH) simp_all
  with step show ?case
    by (simp add: add.assoc)
qed

lemma member_le_sum_list:
  assumes "\<forall>n \<in> set ns. (0::int) \<le> n" and "v \<in> set ns"
  shows "v \<le> sum_list ns"
  using assms
proof (induction ns)
  case Nil
  then show ?case by simp
next
  case (Cons n ns)
  have "0 \<le> sum_list ns"
    using Cons.prems(1) by (simp add: sum_list_nonneg)
  moreover have "0 \<le> n"
    using Cons.prems(1) by simp
  ultimately show ?case
    using Cons by auto
qed

lemma half_up_of_ratio:
  fixes u :: rat
  assumes "0 < B" and "\<bar>u - of_int A / of_int B\<bar> < 1 / of_int B"
  shows "\<lfloor>u\<rfloor> = \<lfloor>of_int A / of_int B :: rat\<rfloor>
       \<or> (of_int B * (of_int \<lfloor>u\<rfloor> + 1) = (of_int A :: rat))"
proof -
  define t :: rat where "t = of_int A / of_int B"
  define z where "z = A div B"
  define r where "r = A mod B"
  have Bpos: "(0::rat) < of_int B"
    using assms(1) by simp
  have r: "0 \<le> r" "r < B"
    using assms(1) by (simp_all add: r_def)
  have "A = B * z + r"
    by (simp add: z_def r_def)
  then have "(of_int A :: rat) = of_int B * of_int z + of_int r"
    by (simp only: of_int_add of_int_mult)
  then have t: "t = of_int z + of_int r / of_int B"
    unfolding t_def using Bpos by (simp add: field_simps)
  have floor_t: "\<lfloor>t\<rfloor> = z"
    unfolding t_def z_def by (rule floor_divide_of_int_eq)
  have near: "\<bar>u - t\<bar> < 1 / of_int B"
    using assms(2) by (simp only: t_def)
  have unit: "(1::rat) / of_int B \<le> 1"
    using assms(1) by simp
  show ?thesis
  proof (cases "r = 0")
    case True
    then have tz: "t = of_int z"
      using t by simp
    with near unit have "of_int z - 1 < u" "u < of_int z + 1"
      by linarith+
    then have "\<lfloor>u\<rfloor> = z \<or> \<lfloor>u\<rfloor> = z - 1"
      by linarith
    then show ?thesis
    proof
      assume "\<lfloor>u\<rfloor> = z"
      with floor_t show ?thesis by (simp add: t_def)
    next
      assume "\<lfloor>u\<rfloor> = z - 1"
      then have "of_int B * (of_int \<lfloor>u\<rfloor> + 1) = of_int B * (of_int z :: rat)"
        by simp
      also have "\<dots> = of_int B * t"
        by (simp only: tz)
      also have "\<dots> = of_int A"
        unfolding t_def using Bpos by simp
      finally show ?thesis by (rule disjI2)
    qed
  next
    case False
    with r have "1 \<le> r" "r \<le> B - 1"
      by simp_all
    then have "(of_int 1 :: rat) \<le> of_int r" "(of_int r :: rat) \<le> of_int (B - 1)"
      by (simp_all only: of_int_le_iff)
    then have "(1::rat) / of_int B \<le> of_int r / of_int B"
      "(of_int r :: rat) / of_int B \<le> (of_int B - 1) / of_int B"
      using Bpos by (simp_all add: divide_right_mono)
    moreover have "((of_int B :: rat) - 1) / of_int B = 1 - 1 / of_int B"
      using Bpos by (simp add: field_simps)
    ultimately have "of_int z + 1 / of_int B \<le> t" "t \<le> of_int z + 1 - 1 / of_int B"
      using t by simp_all
    with near have "of_int z \<le> u" "u < of_int z + 1"
      by linarith+
    then have "\<lfloor>u\<rfloor> = z"
      by (rule floor_unique)
    with floor_t show ?thesis by (simp add: t_def)
  qed
qed

lemma percentage_of_counts:
  assumes nonneg: "\<forall>n \<in> set ns. 0 \<le> n"
    and total: "0 < sum_list ns" "sum_list ns * 2000 < 2 ^ 53"
    and member: "v \<in> set ns"
  shows "\<exists>N. tooltip_percentage tostr (Finite (of_int v)) (map (\<lambda>n. Finite (of_int n)) ns)
            = fixed_digits 1 N
          \<and> (N = nearest_scaled 1 (100 * of_int v / of_int (sum_list ns))
              \<or> of_int N = 10 * (100 * of_int v / of_int (sum_list ns)) - (1 / 2 :: rat))
          \<and> \<bar>of_int N / 10 - 100 * of_int v / of_int (sum_list ns)\<bar> \<le> (1 / 20 :: rat)"
proof -
  define S where "S = sum_list ns"
  define q :: rat where "q = of_int (v * 100) / of_int S"
  have S: "0 < S" "S * 2000 < 2 ^ 53"
    using total by (simp_all add: S_def)
  have Spos: "(0::rat) < of_int S"
    using S by simp
  have v: "0 \<le> v" "v \<le> S"
    using nonneg member member_le_sum_list [OF nonneg member] by (simp_all add: S_def)
  have sum: "foldl jsadd (Finite 0) (map (\<lambda>n. Finite (of_int n)) ns) = Finite (of_int S)"
    using sum_of_counts [OF nonneg, of 0] S by (simp add: S_def)
  have "\<bar>v * 100\<bar> < 2 ^ 53"
    using v S by simp
  then have "fl (of_int (v * 100)) = Finite (of_int (v * 100))"
    by (rule fl_of_int)
  then have mul: "jsmul (Finite (of_int v)) (Finite 100) = Finite (of_int (v * 100))"
    by simp
  have div: "jsdiv (Finite (of_int (v * 100))) (Finite (of_int S)) = fl q"
    using S by (simp add: q_def)
  have shown: "tooltip_percentage tostr (Finite (of_int v)) (map (\<lambda>n. Finite (of_int n)) ns)
      = toFixed tostr 1 (fl q)"
    by (simp only: tooltip_percentage_def Let_def sum mul div)
  have q0: "0 \<le> q"
    using v S by (simp add: q_def)
  have q100: "q \<le> 100"
    using v S by (simp add: q_def divide_le_eq)
  have "\<exists>y. fl q = Finite y \<and> 0 \<le> y \<and> \<bar>y - q\<bar> \<le> 100 / 2 ^ 53"
  proof (cases "v = 0")
    case True
    then have "fl q = Finite 0" "q = 0"
      by (simp_all add: q_def fl_def)
    then show ?thesis by simp
  next
    case False
    with v have "1 \<le> v" by simp
    then have "1 \<le> v * 100" by simp
    then have "(of_int 1 :: rat) \<le> of_int (v * 100)"
      by (simp only: of_int_le_iff)
    then have "(1::rat) \<le> of_int (v * 100)"
      by (simp only: of_int_1)
    moreover have "(of_int S :: rat) \<le> 2 ^ 53"
    proof -
      from S have "S \<le> 2 ^ 53" by simp
      then have "(of_int S :: rat) \<le> of_int (2 ^ 53)"
        by (simp only: of_int_le_iff)
      then show ?thesis by simp
    qed
    ultimately have "1 / 2 ^ 53 \<le> q"
      unfolding q_def using S by (intro frac_le) simp_all
    moreover have "(2::rat) powi (- 1022) \<le> 1 / 2 ^ 53"
      using power_int_increasing [of "- 1022" "- 53" "2::rat"]
      by (simp add: power_int_minus_divide)
    ultimately have small: "2 powi (- 1022) \<le> \<bar>q\<bar>"
      using q0 by simp
    have "(100::rat) < 2 powi 7" by simp
    also have "\<dots> \<le> 2 powi 1023"
      by (rule power_int_increasing) simp_all
    finally have large: "\<bar>q\<bar> < 2 powi 1023"
      using q0 q100 by simp
    from fl_error [OF small large] obtain y
      where y: "fl q = Finite y" "\<bar>y - q\<bar> \<le> \<bar>q\<bar> / 2 ^ 53"
      by blast
    have "\<bar>q\<bar> / 2 ^ 53 \<le> 100 / 2 ^ 53"
      using q0 q100 by (intro divide_right_mono) simp_all
    with y have close: "\<bar>y - q\<bar> \<le> 100 / 2 ^ 53" by simp
    have "\<bar>q\<bar> / 2 ^ 53 \<le> q"
      using q0 by (simp add: divide_le_eq)
    with y(2) have "\<bar>y - q\<bar> \<le> q" by linarith
    then have "0 \<le> y" by linarith
    with y close show ?thesis by blast
  qed
  then obtain y where y: "fl q = Finite y" "0 \<le> y" "\<bar>y - q\<bar> \<le> 100 / 2 ^ 53"
    by blast
  have "y \<le> q + 100 / 2 ^ 53"
    using y(3) by linarith
  with q100 have "\<bar>y\<bar> < 10 ^ 21"
    using y(2) by simp
  then have digits: "toFixed tostr 1 (Finite y) = fixed_digits 1 (nearest_scaled 1 y)"
    using y(2) by (simp add: toFixed_finite)
  define N where "N = nearest_scaled 1 y"
  have N: "N = \<lfloor>y * 10 + 1 / 2\<rfloor>"
    by (simp add: N_def nearest_scaled_def)
  have ratio: "q * 10 + 1 / 2 = of_int (v * 2000 + S) / of_int (2 * S)"
    unfolding q_def using Spos by (simp add: field_simps)
  have "\<bar>(y * 10 + 1 / 2) - (q * 10 + 1 / 2)\<bar> = 10 * \<bar>y - q\<bar>"
    by (simp add: abs_if)
  also have "\<dots> \<le> 1000 / 2 ^ 53"
    using y(3) by simp
  also have "\<dots> < 1 / of_int (2 * S)"
  proof -
    from S have "2 * S * 1000 < 2 ^ 53" by simp
    then have "(of_int (2 * S * 1000) :: rat) < of_int (2 ^ 53)"
      by (simp only: of_int_less_iff)
    then have "(of_int (2 * S) :: rat) * 1000 < 2 ^ 53"
      by simp
    then show ?thesis
      using Spos by (simp add: field_simps)
  qed
  finally have "\<bar>(y * 10 + 1 / 2) - of_int (v * 2000 + S) / of_int (2 * S)\<bar>
      < 1 / of_int (2 * S)"
    by (simp only: ratio)
  with S have "\<lfloor>y * 10 + 1 / 2\<rfloor> = \<lfloor>of_int (v * 2000 + S) / of_int (2 * S) :: rat\<rfloor>
      \<or> of_int (2 * S) * (of_int \<lfloor>y * 10 + 1 / 2\<rfloor> + 1) = (of_int (v * 2000 + S) :: rat)"
    by (intro half_up_of_ratio) simp_all
  then have cases: "N = nearest_scaled 1 q \<or> of_int N = 10 * q - (1 / 2 :: rat)"
  proof
    assume "\<lfloor>y * 10 + 1 / 2\<rfloor> = \<lfloor>of_int (v * 2000 + S) / of_int (2 * S) :: rat\<rfloor>"
    then have "N = nearest_scaled 1 q"
      by (simp only: N ratio [symmetric]) (simp add: nearest_scaled_def)
    then show ?thesis by (rule disjI1)
  next
    assume "of_int (2 * S) * (of_int \<lfloor>y * 10 + 1 / 2\<rfloor> + 1) = (of_int (v * 2000 + S) :: rat)"
    then have "of_int (2 * S) * (of_int N + 1) = (of_int (v * 2000 + S) :: rat)"
      by (simp only: N)
    then have "of_int N + 1 = (of_int (v * 2000 + S) :: rat) / of_int (2 * S)"
      using Spos by (simp add: field_simps)
    then have "of_int N + 1 = q * 10 + 1 / 2"
      by (simp only: ratio)
    then have "of_int N = 10 * q - (1 / 2 :: rat)"
      by simp
    then show ?thesis by (rule disjI2)
  qed
  have close: "\<bar>of_int N / 10 - q\<bar> \<le> (1 / 20 :: rat)"
    using cases
  proof
    assume "N = nearest_scaled 1 q"
    with nearest_scaled_close [of 1 q] have "\<bar>of_int N - q * 10\<bar> \<le> (1 / 2 :: rat)"
      by simp
    then show ?thesis by linarith
  next
    assume "of_int N = 10 * q - (1 / 2 :: rat)"
    then show ?thesis by linarith
  qed
  have q: "q = 100 * of_int v / of_int (sum_list ns)"
    by (simp add: q_def S_def)
  from shown digits y(1) have "tooltip_percentage tostr (Finite (of_int v))
      (map (\<lambda>n. Finite (of_int n)) ns) = fixed_digits 1 N"
    by (simp only: N_def)
  with cases close show ?thesis
    unfolding q by blast
qed

lemma shares_of_the_halfway_example:
  "tooltip_percentage integer_tostr (Finite 7) [Finite 7, Finite 1993] = ''0.3''"
  "toFixed integer_tostr 1 (Finite (100 * 7 / (7 + 1993))) = ''0.4''"
  by code_simp+

lemma chart_percentages_entry:
  assumes "(label, parsed) \<in> set distribution"
  shows "(label, tooltip_percentage tostr parsed (map snd distribution))
     \<in> set (chart_percentages tostr distribution)"
  using assms by (force simp add: chart_percentages_def)

text \<open>
  The claim C8 as it is written fails. For the distribution of \<open>A\<close> with 7 and \<open>B\<close> with
  1993 the share of \<open>A\<close> is \<open>100 * 7 / 2000\<close>, which is 0.35 and with one decimal 0.4; the
  chart shows \<open>0.3\<close>, because the double nearest to 0.35 lies below it.
\<close>

theorem chart_percentages_halfway_share:
  "(''A'', ''0.3'') \<in> set (chart_percentages integer_tostr [(''A'', Finite 7), (''B'', Finite 1993)])
   \<and> tooltip_percentage integer_tostr (Finite 7) [Finite 7, Finite 1993] = ''0.3''
   \<and> toFixed integer_tostr 1 (Finite (100 * 7 / (7 + 1993))) = ''0.4''"
proof -
  have "(''A'', tooltip_percentage integer_tostr (Finite 7)
        (map snd [(''A'', Finite 7), (''B'', Finite 1993)]))
      \<in> set (chart_percentages integer_tostr [(''A'', Finite 7), (''B'', Finite 1993)])"
    by (rule chart_percentages_entry) simp
  then have "(''A'', ''0.3'')
      \<in> set (chart_percentages integer_tostr [(''A'', Finite 7), (''B'', Finite 1993)])"
    by (simp add: shares_of_the_halfway_example)
  then show ?thesis
    using shares_of_the_halfway_example by blast
qed

text \<open>
  Claim C8, amended. For every distribution of whole, non-negative counts whose sum is
  positive and below \<open>2\<^sup>5\<^sup>3 / 2000\<close>: the percentage shown under a label is a number with one
  decimal that is nearest to \<open>100 * value / sum\<close>; it is \<open>100 * value / sum\<close> rounded to
  one decimal, except that a share lying exactly halfway between two such numbers may
  be shown as the lower of them. For the distribution of \<open>A\<close> with 3 and \<open>B\<close> with 1 this
  is \<open>75.0\<close> and \<open>25.0\<close>.
\<close>

theorem chart_percentages_nearest_tenth:
  assumes "\<forall>n \<in> set (map snd counts). 0 \<le> n"
    and "0 < sum_list (map snd counts)"
    and "sum_list (map snd counts) * 2000 < 2 ^ 53"
    and "(label, v) \<in> set counts"
  shows "\<exists>N. (label, fixed_digits 1 N)
            \<in> set (chart_percentages tostr (map (\<lambda>(l, n). (l, Finite (of_int n))) counts))
          \<and> (N = nearest_scaled 1 (100 * of_int v / of_int (sum_list (map snd counts)))
              \<or> of_int N = 10 * (100 * of_int v / of_int (sum_list (map snd counts)))
                   - (1 / 2 :: rat))
          \<and> \<bar>of_int N / 10 - 100 * of_int v / of_int (sum_list (map snd counts))\<bar>
              \<le> (1 / 20 :: rat)"
proof -
  define distribution where
    "distribution = map (\<lambda>(l, n). (l, Finite (of_int n))) counts"
  have data: "map snd distribution = map (\<lambda>n. Finite (of_int n)) (map snd counts)"
    by (simp add: distribution_def case_prod_unfold comp_def)
  from assms(4) have "(label, Finite (of_int v)) \<in> set distribution"
    by (force simp add: distribution_def)
  then have entry: "(label, tooltip_percentage tostr (Finite (of_int v))
        (map (\<lambda>n. Finite (of_int n)) (map snd counts)))
      \<in> set (chart_percentages tostr distribution)"
    using chart_percentages_entry [of label "Finite (of_int v)" distribution tostr]
    by (simp only: data)
  from assms(4) have member: "v \<in> set (map snd counts)"
    by force
  from percentage_of_counts [OF assms(1-3) member, of tostr] obtain N
    where N: "tooltip_percentage tostr (Finite (of_int v))
          (map (\<lambda>n. Finite (of_int n)) (map snd counts)) = fixed_digits 1 N"
      "N = nearest_scaled 1 (100 * of_int v / of_int (sum_list (map snd counts)))
        \<or> of_int N = 10 * (100 * of_int v / of_int (sum_list (map snd counts))) - (1 / 2 :: rat)"
      "\<bar>of_int N / 10 - 100 * of_int v / of_int (sum_list (map snd counts))\<bar> \<le> (1 / 20 :: rat)"
    by blast
  from entry have "(label, fixed_digits 1 N) \<in> set (chart_percentages tostr distribution)"
    by (simp only: N(1))
  with N(2,3) show ?thesis
    unfolding distribution_def by blast
qed

theorem chart_percentages_nearest_tenth_witness:
  "(\<exists>N. (''A'', fixed_digits 1 N)
          \<in> set (chart_percentages integer_tostr [(''A'', Finite 3), (''B'', Finite 1)])
        \<and> \<bar>of_int N / 10 - 75\<bar> \<le> (1 / 20 :: rat))
   \<and> (''A'', ''75.0'') \<in> set (chart_percentages integer_tostr [(''A'', Finite 3), (''B'', Finite 1)])
   \<and> (''B'', ''25.0'') \<in> set (chart_percentages integer_tostr [(''A'', Finite 3), (''B'', Finite 1)])
   \<and> tooltip_label integer_tostr ''A'' (Finite 3) [Finite 3, Finite 1] = ''A: 3 (75.0%)''"
proof -
  have first: "\<exists>N. (''A'', fixed_digits 1 N)
        \<in> set (chart_percentages integer_tostr [(''A'', Finite 3), (''B'', Finite 1)])
      \<and> \<bar>of_int N / 10 - 75\<bar> \<le> (1 / 20 :: rat)"
    using chart_percentages_nearest_tenth
      [of "[(''A'', 3), (''B'', 1)]" "''A''" 3 integer_tostr]
    by simp blast
  have "(''A'', tooltip_percentage integer_tostr (Finite 3)
        (map snd [(''A'', Finite 3), (''B'', Finite 1)]))
      \<in> set (chart_percentages integer_tostr [(''A'', Finite 3), (''B'', Finite 1)])"
    by (rule chart_percentages_entry) simp
  then have second: "(''A'', ''75.0'')
      \<in> set (chart_percentages integer_tostr [(''A'', Finite 3), (''B'', Finite 1)])"
    by (simp add: shares_of_the_example)
  have "(''B'', tooltip_percentage integer_tostr (Finite 1)
        (map snd [(''A'', Finite 3), (''B'', Finite 1)]))
      \<in> set (chart_percentages integer_tostr [(''A'', Finite 3), (''B'', Finite 1)])"
    by (rule chart_percentages_entry) simp
  then have third: "(''B'', ''25.0'')
      \<in> set (chart_percentages integer_tostr [(''A'', Finite 3), (''B'', Finite 1)])"
    by (simp add: shares_of_the_example)
  have fourth: "tooltip_label integer_tostr ''A'' (Finite 3) [Finite 3, Finite 1] = ''A: 3 (75.0%)''"
    by (simp add: tooltip_label_def shares_of_the_example)
  from first second third fourth show ?thesis
    by blast
qed

end
